theory Spec2Isabelle
  imports Main "HOL-Library.Sublist"
begin

section \<open>Strings and user-visible messages\<close>

text \<open>
  The component is \<^verbatim>\<open>App\<close> of the QR reader (the version with the decode pipeline).
  JavaScript strings are modelled as \<^typ>\<open>string\<close> holding the UTF-8 bytes of the text;
  two JavaScript strings are equal exactly when their UTF-8 encodings are. MIME types
  and URL schemes are ASCII. The string literals of the source are Japanese; each one
  is written out below byte by byte, one definition per occurrence in the source, with
  its line number and an English gloss.
\<close>

definition MSG_UNSUPPORTED_FORMAT :: string where
  \<comment> \<open>validateFile, line 23: the image format is not supported; only PNG / JPEG / WEBP (90 bytes)\<close>
  "MSG_UNSUPPORTED_FORMAT =
    [CHR 0xE5, CHR 0xAF, CHR 0xBE, CHR 0xE5, CHR 0xBF, CHR 0x9C, CHR 0xE3, CHR 0x81, CHR 0x97,
     CHR 0xE3, CHR 0x81, CHR 0xA6, CHR 0xE3, CHR 0x81, CHR 0x84, CHR 0xE3, CHR 0x81, CHR 0xAA,
     CHR 0xE3, CHR 0x81, CHR 0x84, CHR 0xE7, CHR 0x94, CHR 0xBB, CHR 0xE5, CHR 0x83, CHR 0x8F,
     CHR 0xE5, CHR 0xBD, CHR 0xA2, CHR 0xE5, CHR 0xBC, CHR 0x8F, CHR 0xE3, CHR 0x81, CHR 0xA7,
     CHR 0xE3, CHR 0x81, CHR 0x99, CHR 0xE3, CHR 0x80, CHR 0x82, CHR ''P'', CHR ''N'', CHR ''G'',
     CHR '' '', CHR ''/'', CHR '' '', CHR ''J'', CHR ''P'', CHR ''E'', CHR ''G'', CHR '' '', CHR ''/'',
     CHR '' '', CHR ''W'', CHR ''E'', CHR ''B'', CHR ''P'', CHR '' '', CHR 0xE3, CHR 0x81, CHR 0xAE,
     CHR 0xE3, CHR 0x81, CHR 0xBF, CHR 0xE5, CHR 0xAF, CHR 0xBE, CHR 0xE5, CHR 0xBF, CHR 0x9C,
     CHR 0xE3, CHR 0x81, CHR 0x97, CHR 0xE3, CHR 0x81, CHR 0xA6, CHR 0xE3, CHR 0x81, CHR 0x84,
     CHR 0xE3, CHR 0x81, CHR 0xBE, CHR 0xE3, CHR 0x81, CHR 0x99, CHR 0xE3, CHR 0x80, CHR 0x82]"

definition MSG_FILE_TOO_LARGE :: string where
  \<comment> \<open>validateFile, line 26: the image is too large; at most 5MB (80 bytes)\<close>
  "MSG_FILE_TOO_LARGE =
    [CHR 0xE7, CHR 0x94, CHR 0xBB, CHR 0xE5, CHR 0x83, CHR 0x8F, CHR 0xE3, CHR 0x82, CHR 0xB5,
     CHR 0xE3, CHR 0x82, CHR 0xA4, CHR 0xE3, CHR 0x82, CHR 0xBA, CHR 0xE3, CHR 0x81, CHR 0x8C,
     CHR 0xE5, CHR 0xA4, CHR 0xA7, CHR 0xE3, CHR 0x81, CHR 0x8D, CHR 0xE3, CHR 0x81, CHR 0x99,
     CHR 0xE3, CHR 0x81, CHR 0x8E, CHR 0xE3, CHR 0x81, CHR 0xBE, CHR 0xE3, CHR 0x81, CHR 0x99,
     CHR 0xE3, CHR 0x80, CHR 0x82, CHR 0xE6, CHR 0x9C, CHR 0x80, CHR 0xE5, CHR 0xA4, CHR 0xA7,
     CHR '' '', CHR ''5'', CHR ''M'', CHR ''B'', CHR '' '', CHR 0xE3, CHR 0x81, CHR 0xBE, CHR 0xE3,
     CHR 0x81, CHR 0xA7, CHR 0xE5, CHR 0xAF, CHR 0xBE, CHR 0xE5, CHR 0xBF, CHR 0x9C, CHR 0xE3,
     CHR 0x81, CHR 0x97, CHR 0xE3, CHR 0x81, CHR 0xA6, CHR 0xE3, CHR 0x81, CHR 0x84, CHR 0xE3,
     CHR 0x81, CHR 0xBE, CHR 0xE3, CHR 0x81, CHR 0x99, CHR 0xE3, CHR 0x80, CHR 0x82]"

definition MSG_CONTEXT_UNAVAILABLE :: string where
  \<comment> \<open>image.onload, line 74: the drawing context needed to analyse the image could not be obtained (87 bytes)\<close>
  "MSG_CONTEXT_UNAVAILABLE =
    [CHR 0xE7, CHR 0x94, CHR 0xBB, CHR 0xE5, CHR 0x83, CHR 0x8F, CHR 0xE3, CHR 0x81, CHR 0xAE,
     CHR 0xE8, CHR 0xA7, CHR 0xA3, CHR 0xE6, CHR 0x9E, CHR 0x90, CHR 0xE3, CHR 0x81, CHR 0xAB,
     CHR 0xE5, CHR 0xBF, CHR 0x85, CHR 0xE8, CHR 0xA6, CHR 0x81, CHR 0xE3, CHR 0x81, CHR 0xAA,
     CHR 0xE6, CHR 0x8F, CHR 0x8F, CHR 0xE7, CHR 0x94, CHR 0xBB, CHR 0xE3, CHR 0x82, CHR 0xB3,
     CHR 0xE3, CHR 0x83, CHR 0xB3, CHR 0xE3, CHR 0x83, CHR 0x86, CHR 0xE3, CHR 0x82, CHR 0xAD,
     CHR 0xE3, CHR 0x82, CHR 0xB9, CHR 0xE3, CHR 0x83, CHR 0x88, CHR 0xE3, CHR 0x82, CHR 0x92,
     CHR 0xE5, CHR 0x8F, CHR 0x96, CHR 0xE5, CHR 0xBE, CHR 0x97, CHR 0xE3, CHR 0x81, CHR 0xA7,
     CHR 0xE3, CHR 0x81, CHR 0x8D, CHR 0xE3, CHR 0x81, CHR 0xBE, CHR 0xE3, CHR 0x81, CHR 0x9B,
     CHR 0xE3, CHR 0x82, CHR 0x93, CHR 0xE3, CHR 0x81, CHR 0xA7, CHR 0xE3, CHR 0x81, CHR 0x97,
     CHR 0xE3, CHR 0x81, CHR 0x9F, CHR 0xE3, CHR 0x80, CHR 0x82]"

definition MSG_CODE_NOT_FOUND :: string where
  \<comment> \<open>image.onload, line 85: no QR code was found (47 bytes)\<close>
  "MSG_CODE_NOT_FOUND =
    [CHR ''Q'', CHR ''R'', CHR 0xE3, CHR 0x82, CHR 0xB3, CHR 0xE3, CHR 0x83, CHR 0xBC, CHR 0xE3,
     CHR 0x83, CHR 0x89, CHR 0xE3, CHR 0x81, CHR 0x8C, CHR 0xE8, CHR 0xA6, CHR 0x8B, CHR 0xE3,
     CHR 0x81, CHR 0xA4, CHR 0xE3, CHR 0x81, CHR 0x8B, CHR 0xE3, CHR 0x82, CHR 0x8A, CHR 0xE3,
     CHR 0x81, CHR 0xBE, CHR 0xE3, CHR 0x81, CHR 0x9B, CHR 0xE3, CHR 0x82, CHR 0x93, CHR 0xE3,
     CHR 0x81, CHR 0xA7, CHR 0xE3, CHR 0x81, CHR 0x97, CHR 0xE3, CHR 0x81, CHR 0x9F, CHR 0xE3,
     CHR 0x80, CHR 0x82]"

definition MSG_IMAGE_LOAD_FAILED :: string where
  \<comment> \<open>image.onerror, line 97: loading the image failed (45 bytes)\<close>
  "MSG_IMAGE_LOAD_FAILED =
    [CHR 0xE7, CHR 0x94, CHR 0xBB, CHR 0xE5, CHR 0x83, CHR 0x8F, CHR 0xE3, CHR 0x81, CHR 0xAE,
     CHR 0xE8, CHR 0xAA, CHR 0xAD, CHR 0xE3, CHR 0x81, CHR 0xBF, CHR 0xE8, CHR 0xBE, CHR 0xBC,
     CHR 0xE3, CHR 0x81, CHR 0xBF, CHR 0xE3, CHR 0x81, CHR 0xAB, CHR 0xE5, CHR 0xA4, CHR 0xB1,
     CHR 0xE6, CHR 0x95, CHR 0x97, CHR 0xE3, CHR 0x81, CHR 0x97, CHR 0xE3, CHR 0x81, CHR 0xBE,
     CHR 0xE3, CHR 0x81, CHR 0x97, CHR 0xE3, CHR 0x81, CHR 0x9F, CHR 0xE3, CHR 0x80, CHR 0x82]"

definition MSG_PASTE_NO_ITEMS :: string where
  \<comment> \<open>handlePaste, line 113: no image was found on the clipboard (66 bytes)\<close>
  "MSG_PASTE_NO_ITEMS =
    [CHR 0xE3, CHR 0x82, CHR 0xAF, CHR 0xE3, CHR 0x83, CHR 0xAA, CHR 0xE3, CHR 0x83, CHR 0x83,
     CHR 0xE3, CHR 0x83, CHR 0x97, CHR 0xE3, CHR 0x83, CHR 0x9C, CHR 0xE3, CHR 0x83, CHR 0xBC,
     CHR 0xE3, CHR 0x83, CHR 0x89, CHR 0xE3, CHR 0x81, CHR 0xAB, CHR 0xE7, CHR 0x94, CHR 0xBB,
     CHR 0xE5, CHR 0x83, CHR 0x8F, CHR 0xE3, CHR 0x81, CHR 0x8C, CHR 0xE8, CHR 0xA6, CHR 0x8B,
     CHR 0xE3, CHR 0x81, CHR 0xA4, CHR 0xE3, CHR 0x81, CHR 0x8B, CHR 0xE3, CHR 0x82, CHR 0x8A,
     CHR 0xE3, CHR 0x81, CHR 0xBE, CHR 0xE3, CHR 0x81, CHR 0x9B, CHR 0xE3, CHR 0x82, CHR 0x93,
     CHR 0xE3, CHR 0x81, CHR 0xA7, CHR 0xE3, CHR 0x81, CHR 0x97, CHR 0xE3, CHR 0x81, CHR 0x9F,
     CHR 0xE3, CHR 0x80, CHR 0x82]"

definition MSG_PASTE_NO_IMAGE_ITEM :: string where
  \<comment> \<open>handlePaste, line 119: no image was found on the clipboard (66 bytes)\<close>
  "MSG_PASTE_NO_IMAGE_ITEM =
    [CHR 0xE3, CHR 0x82, CHR 0xAF, CHR 0xE3, CHR 0x83, CHR 0xAA, CHR 0xE3, CHR 0x83, CHR 0x83,
     CHR 0xE3, CHR 0x83, CHR 0x97, CHR 0xE3, CHR 0x83, CHR 0x9C, CHR 0xE3, CHR 0x83, CHR 0xBC,
     CHR 0xE3, CHR 0x83, CHR 0x89, CHR 0xE3, CHR 0x81, CHR 0xAB, CHR 0xE7, CHR 0x94, CHR 0xBB,
     CHR 0xE5, CHR 0x83, CHR 0x8F, CHR 0xE3, CHR 0x81, CHR 0x8C, CHR 0xE8, CHR 0xA6, CHR 0x8B,
     CHR 0xE3, CHR 0x81, CHR 0xA4, CHR 0xE3, CHR 0x81, CHR 0x8B, CHR 0xE3, CHR 0x82, CHR 0x8A,
     CHR 0xE3, CHR 0x81, CHR 0xBE, CHR 0xE3, CHR 0x81, CHR 0x9B, CHR 0xE3, CHR 0x82, CHR 0x93,
     CHR 0xE3, CHR 0x81, CHR 0xA7, CHR 0xE3, CHR 0x81, CHR 0x97, CHR 0xE3, CHR 0x81, CHR 0x9F,
     CHR 0xE3, CHR 0x80, CHR 0x82]"

definition MSG_PASTE_READ_FAILED :: string where
  \<comment> \<open>handlePaste, line 125: the clipboard image could not be read (66 bytes)\<close>
  "MSG_PASTE_READ_FAILED =
    [CHR 0xE3, CHR 0x82, CHR 0xAF, CHR 0xE3, CHR 0x83, CHR 0xAA, CHR 0xE3, CHR 0x83, CHR 0x83,
     CHR 0xE3, CHR 0x83, CHR 0x97, CHR 0xE3, CHR 0x83, CHR 0x9C, CHR 0xE3, CHR 0x83, CHR 0xBC,
     CHR 0xE3, CHR 0x83, CHR 0x89, CHR 0xE3, CHR 0x81, CHR 0xAE, CHR 0xE7, CHR 0x94, CHR 0xBB,
     CHR 0xE5, CHR 0x83, CHR 0x8F, CHR 0xE3, CHR 0x82, CHR 0x92, CHR 0xE8, CHR 0xAA, CHR 0xAD,
     CHR 0xE3, CHR 0x81, CHR 0xBF, CHR 0xE8, CHR 0xBE, CHR 0xBC, CHR 0xE3, CHR 0x82, CHR 0x81,
     CHR 0xE3, CHR 0x81, CHR 0xBE, CHR 0xE3, CHR 0x81, CHR 0x9B, CHR 0xE3, CHR 0x82, CHR 0x93,
     CHR 0xE3, CHR 0x81, CHR 0xA7, CHR 0xE3, CHR 0x81, CHR 0x97, CHR 0xE3, CHR 0x81, CHR 0x9F,
     CHR 0xE3, CHR 0x80, CHR 0x82]"

text \<open>
  JavaScript truthiness of a \<^verbatim>\<open>string | null\<close> value, as tested by \<^verbatim>\<open>if (validationError)\<close>
  and by the \<^verbatim>\<open>&&\<close> guards of the render function: \<^verbatim>\<open>null\<close> and the empty string are falsy.
\<close>

definition truthy :: "string option \<Rightarrow> bool" where
  "truthy v = (case v of None \<Rightarrow> False | Some text \<Rightarrow> text \<noteq> [])"

section \<open>File validation\<close>

text \<open>
  A \<^verbatim>\<open>File\<close> object: its identity (React compares dependencies with \<^verbatim>\<open>Object.is\<close>, that is
  by reference), its declared MIME type, its byte length and its name.
\<close>

record File =
  file_ref :: nat
  file_type :: string
  file_size :: nat
  file_name :: string

definition MAX_FILE_SIZE_BYTES :: nat where
  "MAX_FILE_SIZE_BYTES = 5 * 1024 * 1024"

definition ACCEPTED_MIME_TYPES :: "string set" where
  "ACCEPTED_MIME_TYPES = {''image/png'', ''image/jpeg'', ''image/webp''}"

definition validateFile :: "File \<Rightarrow> string option" where
  "validateFile file =
     (if file_type file \<notin> ACCEPTED_MIME_TYPES then Some MSG_UNSUPPORTED_FORMAT
      else if file_size file > MAX_FILE_SIZE_BYTES then Some MSG_FILE_TOO_LARGE
      else None)"

section \<open>Link detection\<close>

text \<open>
  Exceptions of the platform that the code can meet: \<^verbatim>\<open>new URL\<close> throws a \<^verbatim>\<open>TypeError\<close> on
  a string that does not parse, \<^verbatim>\<open>getImageData\<close> throws an \<^verbatim>\<open>IndexSizeError\<close>.
\<close>

datatype js_exception = TypeError | IndexSizeError

text \<open>
  The \<^verbatim>\<open>URL\<close> constructor belongs to the browser, not to the repository: it is a
  parameter \<open>new_URL\<close> of the model, returning the exception or the parsed URL. Of a
  parsed URL only the scheme is read; the \<^verbatim>\<open>protocol\<close> getter is the scheme followed by
  a colon.
\<close>

record URL =
  url_scheme :: string

definition protocol :: "URL \<Rightarrow> string" where
  "protocol parsed = url_scheme parsed @ '':''"

definition isHttpUrl :: "(string \<Rightarrow> js_exception + URL) \<Rightarrow> string \<Rightarrow> bool" where
  "isHttpUrl new_URL val =
     (case new_URL val of
        Inr parsed \<Rightarrow> protocol parsed = ''http:'' \<or> protocol parsed = ''https:''
      | Inl exn \<Rightarrow> False)"

section \<open>Component state\<close>

text \<open>
  An object URL is identified by a number: \<^verbatim>\<open>URL.createObjectURL\<close> returns a fresh one on
  every call. The state of the running component is
  \<^item> the six \<^verbatim>\<open>useState\<close> cells of \<^verbatim>\<open>App\<close>;
  \<^item> the file input element behind \<^verbatim>\<open>fileInputRef\<close>: its list of selected files (its
    \<^verbatim>\<open>value\<close> is the empty string exactly when the list is empty, and assigning the empty
    string to \<^verbatim>\<open>value\<close> empties the list);
  \<^item> whether the component is mounted (the paste listener is registered);
  \<^item> the browser's store of object URLs that are created and not yet revoked;
  \<^item> the closures the two effects on \<^verbatim>\<open>selectedFile\<close> left behind: the URL captured by the
    cleanup of the preview effect, the URL captured by the cleanup of the decode effect,
    and for every \<^verbatim>\<open>Image\<close> whose load or error event has not fired yet (keyed by the URL
    it loads) the current value of the \<^verbatim>\<open>cancelled\<close> variable its handlers close over.
\<close>

type_synonym object_url = nat

record app =
  selectedFile :: "File option"
  imageUrl :: "object_url option"
  errorMessage :: "string option"
  decodeResult :: "string option"
  decodeError :: "string option"
  isDecoding :: bool
  inputFiles :: "File list"
  mounted :: bool
  nextUrl :: nat
  objectURLs :: "object_url set"
  previewCleanup :: "object_url option"
  decodeCleanup :: "object_url option"
  loading :: "object_url \<rightharpoonup> bool"

definition init :: app where
  "init = \<lparr>selectedFile = None, imageUrl = None, errorMessage = None, decodeResult = None,
            decodeError = None, isDecoding = False, inputFiles = [], mounted = True,
            nextUrl = 0, objectURLs = {}, previewCleanup = None, decodeCleanup = None,
            loading = Map.empty\<rparr>"

definition createObjectURL :: "app \<Rightarrow> object_url \<times> app" where
  "createObjectURL s =
     (nextUrl s, s\<lparr>nextUrl := Suc (nextUrl s), objectURLs := insert (nextUrl s) (objectURLs s)\<rparr>)"

definition revokeObjectURL :: "object_url \<Rightarrow> app \<Rightarrow> app" where
  "revokeObjectURL url s = s\<lparr>objectURLs := objectURLs s - {url}\<rparr>"

section \<open>The decode pipeline\<close>

text \<open>
  What the browser hands to \<^verbatim>\<open>image.onload\<close>: the natural size of the loaded image and the
  RGBA bytes that drawing it on a canvas of that size and reading the canvas back yield.
  \<^verbatim>\<open>getImageData\<close> is the platform's: it throws an \<^verbatim>\<open>IndexSizeError\<close> when the requested
  width or height is zero. \<^verbatim>\<open>jsQR\<close> is the external decoder, a parameter of the model; it
  returns \<^verbatim>\<open>code.data\<close> or \<^verbatim>\<open>null\<close>.
\<close>

record image =
  naturalWidth :: nat
  naturalHeight :: nat
  pixels :: "nat list"

record ImageData =
  data :: "nat list"
  width :: nat
  height :: nat

type_synonym qr_decoder = "nat list \<Rightarrow> nat \<Rightarrow> nat \<Rightarrow> string option"

definition getImageData :: "image \<Rightarrow> nat \<Rightarrow> nat \<Rightarrow> js_exception + ImageData" where
  "getImageData img sw sh =
     (if sw = 0 \<or> sh = 0 then Inl IndexSizeError
      else Inr \<lparr>data = pixels img, width = sw, height = sh\<rparr>)"

text \<open>
  \<^verbatim>\<open>image.onload\<close> (lines 63 to 91) of the decode effect that created \<open>url\<close>; \<open>cancelled\<close> is
  the value of the closure's variable when the event fires, \<open>has_context\<close> says whether
  \<^verbatim>\<open>canvas.getContext\<close> returned a context. The handler has no \<^verbatim>\<open>try\<close>: an exception of
  \<^verbatim>\<open>getImageData\<close> leaves it, before any state is set.
\<close>

definition image_onload ::
  "qr_decoder \<Rightarrow> object_url \<Rightarrow> bool \<Rightarrow> image \<Rightarrow> bool \<Rightarrow> app \<Rightarrow> js_exception + app" where
  "image_onload jsQR url cancelled img has_context s =
     (if cancelled then Inr (revokeObjectURL url s)
      else if \<not> has_context then
        Inr (revokeObjectURL url
               (s\<lparr>decodeError := Some MSG_CONTEXT_UNAVAILABLE, isDecoding := False\<rparr>))
      else
        (case getImageData img (naturalWidth img) (naturalHeight img) of
           Inl exn \<Rightarrow> Inl exn
         | Inr imageData \<Rightarrow>
             (let code = jsQR (data imageData) (width imageData) (height imageData);
                  s1 = (case code of
                          None \<Rightarrow> s\<lparr>decodeError := Some MSG_CODE_NOT_FOUND\<rparr>
                        | Some text \<Rightarrow> s\<lparr>decodeResult := Some text\<rparr>)
              in Inr (revokeObjectURL url (s1\<lparr>isDecoding := False\<rparr>)))))"

text \<open>\<^verbatim>\<open>image.onerror\<close> (lines 92 to 100).\<close>

definition image_onerror :: "object_url \<Rightarrow> bool \<Rightarrow> app \<Rightarrow> app" where
  "image_onerror url cancelled s =
     (if cancelled then revokeObjectURL url s
      else revokeObjectURL url
             (s\<lparr>decodeError := Some MSG_IMAGE_LOAD_FAILED, isDecoding := False\<rparr>))"

section \<open>The effects on the selected file\<close>

text \<open>The preview effect (lines 40 to 51) and the cleanup it returns.\<close>

definition preview_effect :: "app \<Rightarrow> app" where
  "preview_effect s =
     (case selectedFile s of
        None \<Rightarrow>
          s\<lparr>imageUrl := None, decodeResult := None, decodeError := None, isDecoding := False,
            previewCleanup := None\<rparr>
      | Some file \<Rightarrow>
          (let (url, s1) = createObjectURL s
           in s1\<lparr>imageUrl := Some url, previewCleanup := Some url\<rparr>))"

definition preview_cleanup :: "app \<Rightarrow> app" where
  "preview_cleanup s =
     (case previewCleanup s of None \<Rightarrow> s | Some url \<Rightarrow> revokeObjectURL url s)"

text \<open>
  The decode effect (lines 53 to 107): it starts one decode, whose \<^verbatim>\<open>Image\<close> is now loading
  with \<^verbatim>\<open>cancelled = false\<close>. Its cleanup (lines 103 to 106) sets the variable of that
  closure and revokes the URL; the variable is recorded only while the image's event is
  still to come, since nothing reads it afterwards.
\<close>

definition decode_effect :: "app \<Rightarrow> app" where
  "decode_effect s =
     (case selectedFile s of
        None \<Rightarrow> s\<lparr>decodeCleanup := None\<rparr>
      | Some file \<Rightarrow>
          (let s1 = s\<lparr>isDecoding := True, decodeError := None, decodeResult := None\<rparr>;
               (url, s2) = createObjectURL s1
           in s2\<lparr>loading := (loading s2)(url \<mapsto> False), decodeCleanup := Some url\<rparr>))"

definition decode_cleanup :: "app \<Rightarrow> app" where
  "decode_cleanup s =
     (case decodeCleanup s of
        None \<Rightarrow> s
      | Some url \<Rightarrow>
          revokeObjectURL url
            (s\<lparr>loading := (case loading s url of
                              None \<Rightarrow> loading s
                            | Some c \<Rightarrow> (loading s)(url \<mapsto> True))\<rparr>))"

text \<open>
  After a handler has run, React renders again; the two effects have the dependency
  list \<^verbatim>\<open>[selectedFile]\<close>, so they run again exactly when the selected file is not the
  object it was before (\<open>prev\<close>): first both cleanups, in the order of declaration, then
  both effects. The state the effects set is rendered before the next event is handled.
\<close>

definition commit :: "File option \<Rightarrow> app \<Rightarrow> app" where
  "commit prev s =
     (if selectedFile s = prev then s
      else decode_effect (preview_effect (decode_cleanup (preview_cleanup s))))"

section \<open>Event handlers\<close>

text \<open>
  A clipboard item: its \<^verbatim>\<open>type\<close> and what \<^verbatim>\<open>getAsFile()\<close> returns for it. The paste event
  carries the item list, or nothing when \<^verbatim>\<open>clipboardData\<close> is absent.
\<close>

record clipboard_item =
  item_type :: string
  getAsFile :: "File option"

definition handlePaste :: "clipboard_item list option \<Rightarrow> app \<Rightarrow> app" where
  "handlePaste items s =
     (case items of
        None \<Rightarrow> s\<lparr>errorMessage := Some MSG_PASTE_NO_ITEMS\<rparr>
      | Some [] \<Rightarrow> s\<lparr>errorMessage := Some MSG_PASTE_NO_ITEMS\<rparr>
      | Some (item0 # rest) \<Rightarrow>
          (case List.find (\<lambda>item. prefix ''image/'' (item_type item)) (item0 # rest) of
             None \<Rightarrow> s\<lparr>errorMessage := Some MSG_PASTE_NO_IMAGE_ITEM\<rparr>
           | Some imageItem \<Rightarrow>
               (case getAsFile imageItem of
                  None \<Rightarrow> s\<lparr>errorMessage := Some MSG_PASTE_READ_FAILED\<rparr>
                | Some file \<Rightarrow>
                    (let validationError = validateFile file
                     in if truthy validationError then s\<lparr>errorMessage := validationError\<rparr>
                        else s\<lparr>errorMessage := None, selectedFile := Some file\<rparr>))))"

text \<open>
  \<^verbatim>\<open>handleFileChange\<close> (lines 152 to 166) reads the first file of the input element, which
  the browser has filled before the change event.
\<close>

definition handleFileChange :: "app \<Rightarrow> app" where
  "handleFileChange s =
     (case inputFiles s of
        [] \<Rightarrow> s
      | file # rest \<Rightarrow>
          (let validationError = validateFile file
           in if truthy validationError then
                s\<lparr>errorMessage := validationError, selectedFile := None, inputFiles := []\<rparr>
              else s\<lparr>errorMessage := None, selectedFile := Some file\<rparr>))"

definition handleReset :: "app \<Rightarrow> app" where
  "handleReset s =
     s\<lparr>selectedFile := None, errorMessage := None, decodeResult := None, decodeError := None,
       isDecoding := False, inputFiles := []\<rparr>"

section \<open>The event loop\<close>

text \<open>
  The browser is single-threaded: it delivers one event at a time. A change of the file
  input and a paste reach the component while it is mounted; the reset button exists
  only while a file is selected (it is rendered inside \<^verbatim>\<open>selectedFile &&\<close>); the load or
  error event of an image fires at most once, for an image that is still loading. An
  event that cannot occur in a state leaves it as it is. An exception that leaves
  \<^verbatim>\<open>image.onload\<close> is reported by the browser and changes nothing.
\<close>

datatype event =
    FileChange "File list"
  | Paste "clipboard_item list option"
  | Reset
  | ImageLoad object_url image bool
  | ImageError object_url
  | Unmount

definition unmount :: "app \<Rightarrow> app" where
  "unmount s = (decode_cleanup (preview_cleanup s))\<lparr>mounted := False\<rparr>"

fun step :: "qr_decoder \<Rightarrow> app \<Rightarrow> event \<Rightarrow> app" where
  "step jsQR s (FileChange files) =
     (if mounted s then commit (selectedFile s) (handleFileChange (s\<lparr>inputFiles := files\<rparr>))
      else s)"
| "step jsQR s (Paste items) =
     (if mounted s then commit (selectedFile s) (handlePaste items s) else s)"
| "step jsQR s Reset =
     (if mounted s \<and> selectedFile s \<noteq> None then commit (selectedFile s) (handleReset s)
      else s)"
| "step jsQR s (ImageLoad url img has_context) =
     (case loading s url of
        None \<Rightarrow> s
      | Some cancelled \<Rightarrow>
          (let s1 = s\<lparr>loading := (loading s)(url := None)\<rparr>
           in case image_onload jsQR url cancelled img has_context s1 of
                Inl exn \<Rightarrow> s1
              | Inr s2 \<Rightarrow> s2))"
| "step jsQR s (ImageError url) =
     (case loading s url of
        None \<Rightarrow> s
      | Some cancelled \<Rightarrow> image_onerror url cancelled (s\<lparr>loading := (loading s)(url := None)\<rparr>))"
| "step jsQR s Unmount = (if mounted s then unmount s else s)"

definition run :: "qr_decoder \<Rightarrow> app \<Rightarrow> event list \<Rightarrow> app" where
  "run jsQR s evs = foldl (step jsQR) s evs"

section \<open>What is displayed\<close>

text \<open>
  The six state cells are what the render function reads. The decode block of the render
  function (lines 242 to 264, inside \<^verbatim>\<open>selectedFile &&\<close>) shows the pending notice, the error
  or the decoded text under these guards.
\<close>

definition displayed ::
  "app \<Rightarrow> File option \<times> object_url option \<times> string option \<times> string option \<times> string option \<times> bool" where
  "displayed s =
     (selectedFile s, imageUrl s, errorMessage s, decodeResult s, decodeError s, isDecoding s)"

definition shows_pending :: "app \<Rightarrow> bool" where
  "shows_pending s = (selectedFile s \<noteq> None \<and> isDecoding s)"

definition shows_decodeError :: "app \<Rightarrow> bool" where
  "shows_decodeError s = (selectedFile s \<noteq> None \<and> \<not> isDecoding s \<and> truthy (decodeError s))"

definition shows_decodeResult :: "app \<Rightarrow> bool" where
  "shows_decodeResult s = (selectedFile s \<noteq> None \<and> \<not> isDecoding s \<and> truthy (decodeResult s))"

text \<open>
  The specification's vocabulary for the outcome of a decode, and the outcome a state
  stands for: the code keeps it in \<^verbatim>\<open>isDecoding\<close>, \<^verbatim>\<open>decodeResult\<close> and \<^verbatim>\<open>decodeError\<close>, the
  failure reasons being told apart by their message.
\<close>

datatype DecodeOutcome = Pending | Success string | NotFound | LoadError | ContextError

definition DecodeOutcome_of :: "app \<Rightarrow> DecodeOutcome option" where
  "DecodeOutcome_of s =
     (if isDecoding s then Some Pending
      else case (decodeResult s, decodeError s) of
             (Some text, None) \<Rightarrow> Some (Success text)
           | (None, Some message) \<Rightarrow>
               (if message = MSG_CODE_NOT_FOUND then Some NotFound
                else if message = MSG_IMAGE_LOAD_FAILED then Some LoadError
                else if message = MSG_CONTEXT_UNAVAILABLE then Some ContextError
                else None)
           | _ \<Rightarrow> None)"

section \<open>Invariant and simulation\<close>

text \<open>
  The invariant of the event loop. A decode that is not cancelled belongs to the current
  run of the decode effect, and while it is loading the state is pending with no result
  and no error; URLs in use are below the counter; the three outcome cells exclude one
  another; without a selected file nothing is shown and no cleanup is registered, with
  one the preview is the URL of the preview effect; every live object URL belongs to
  the current run of one of the two effects.
\<close>

definition consistent :: "app \<Rightarrow> bool" where
  "consistent s \<longleftrightarrow>
     (\<forall>url. loading s url = Some False \<longrightarrow>
        decodeCleanup s = Some url \<and> isDecoding s \<and> decodeResult s = None \<and> decodeError s = None)
   \<and> (\<forall>url c. loading s url = Some c \<longrightarrow> url < nextUrl s)
   \<and> (\<forall>url. previewCleanup s = Some url \<or> decodeCleanup s = Some url \<longrightarrow> url < nextUrl s)
   \<and> (isDecoding s \<longrightarrow> decodeResult s = None \<and> decodeError s = None)
   \<and> (decodeResult s = None \<or> decodeError s = None)
   \<and> (selectedFile s = None \<longrightarrow>
        imageUrl s = None \<and> decodeResult s = None \<and> decodeError s = None \<and> \<not> isDecoding s
        \<and> previewCleanup s = None \<and> decodeCleanup s = None)
   \<and> (selectedFile s \<noteq> None \<longrightarrow>
        imageUrl s \<noteq> None \<and> previewCleanup s = imageUrl s \<and> decodeCleanup s \<noteq> None)
   \<and> objectURLs s \<subseteq> set_option (previewCleanup s) \<union> set_option (decodeCleanup s)"

text \<open>
  A decode \<open>a\<close> is stale when its URL has been handed out and its image is not loading
  with \<^verbatim>\<open>cancelled = false\<close>: it has fired, or it is cancelled. Two states agree up to \<open>a\<close>
  when they differ at most in the record of that image and in the store of object URLs.
\<close>

definition stale :: "object_url \<Rightarrow> app \<Rightarrow> bool" where
  "stale a s \<longleftrightarrow> a < nextUrl s \<and> loading s a \<noteq> Some False"

definition agree :: "object_url \<Rightarrow> app \<Rightarrow> app \<Rightarrow> bool" where
  "agree a s t \<longleftrightarrow>
     selectedFile s = selectedFile t \<and> imageUrl s = imageUrl t
     \<and> errorMessage s = errorMessage t \<and> decodeResult s = decodeResult t
     \<and> decodeError s = decodeError t \<and> isDecoding s = isDecoding t
     \<and> inputFiles s = inputFiles t \<and> mounted s = mounted t \<and> nextUrl s = nextUrl t
     \<and> previewCleanup s = previewCleanup t \<and> decodeCleanup s = decodeCleanup t
     \<and> (\<forall>url. url \<noteq> a \<longrightarrow> loading s url = loading t url)
     \<and> stale a s \<and> stale a t"

section \<open>Facts about messages and the protocol getter\<close>

lemma MSG_UNSUPPORTED_FORMAT_neq_MSG_FILE_TOO_LARGE:
  "MSG_UNSUPPORTED_FORMAT \<noteq> MSG_FILE_TOO_LARGE"
  by (simp add: MSG_UNSUPPORTED_FORMAT_def MSG_FILE_TOO_LARGE_def)

lemma protocol_http: "protocol parsed = ''http:'' \<longleftrightarrow> url_scheme parsed = ''http''"
proof -
  have "''http:'' = ''http'' @ '':''" by simp
  then show ?thesis unfolding protocol_def by (metis append_same_eq)
qed

lemma protocol_https: "protocol parsed = ''https:'' \<longleftrightarrow> url_scheme parsed = ''https''"
proof -
  have "''https:'' = ''https'' @ '':''" by simp
  then show ?thesis unfolding protocol_def by (metis append_same_eq)
qed

section \<open>Field by field: cleanups, effects, handlers, events\<close>

text \<open>
  What the two cleanups, the two effects and their composition in a commit do to each
  field of the state. The later proofs use these equations instead of the definitions.
\<close>

lemmas effect_defs = createObjectURL_def revokeObjectURL_def preview_effect_def
  preview_cleanup_def decode_effect_def decode_cleanup_def

lemma cleanup_fields:
  "selectedFile (decode_cleanup (preview_cleanup s)) = selectedFile s"
  "imageUrl (decode_cleanup (preview_cleanup s)) = imageUrl s"
  "errorMessage (decode_cleanup (preview_cleanup s)) = errorMessage s"
  "decodeResult (decode_cleanup (preview_cleanup s)) = decodeResult s"
  "decodeError (decode_cleanup (preview_cleanup s)) = decodeError s"
  "isDecoding (decode_cleanup (preview_cleanup s)) = isDecoding s"
  "inputFiles (decode_cleanup (preview_cleanup s)) = inputFiles s"
  "mounted (decode_cleanup (preview_cleanup s)) = mounted s"
  "nextUrl (decode_cleanup (preview_cleanup s)) = nextUrl s"
  "previewCleanup (decode_cleanup (preview_cleanup s)) = previewCleanup s"
  "decodeCleanup (decode_cleanup (preview_cleanup s)) = decodeCleanup s"
  "objectURLs (decode_cleanup (preview_cleanup s)) =
     objectURLs s - set_option (previewCleanup s) - set_option (decodeCleanup s)"
  "loading (decode_cleanup (preview_cleanup s)) url =
     (if decodeCleanup s = Some url then map_option (\<lambda>c. True) (loading s url)
      else loading s url)"
  by (cases "previewCleanup s"; cases "decodeCleanup s";
      auto simp add: effect_defs split: option.splits)+

lemma effects_fields_None:
  assumes "selectedFile s = None"
  shows "selectedFile (decode_effect (preview_effect s)) = None"
    "imageUrl (decode_effect (preview_effect s)) = None"
    "errorMessage (decode_effect (preview_effect s)) = errorMessage s"
    "decodeResult (decode_effect (preview_effect s)) = None"
    "decodeError (decode_effect (preview_effect s)) = None"
    "isDecoding (decode_effect (preview_effect s)) = False"
    "inputFiles (decode_effect (preview_effect s)) = inputFiles s"
    "mounted (decode_effect (preview_effect s)) = mounted s"
    "nextUrl (decode_effect (preview_effect s)) = nextUrl s"
    "previewCleanup (decode_effect (preview_effect s)) = None"
    "decodeCleanup (decode_effect (preview_effect s)) = None"
    "objectURLs (decode_effect (preview_effect s)) = objectURLs s"
    "loading (decode_effect (preview_effect s)) = loading s"
  using assms by (simp_all add: effect_defs)

lemma effects_fields_Some:
  assumes "selectedFile s = Some f"
  shows "selectedFile (decode_effect (preview_effect s)) = Some f"
    "imageUrl (decode_effect (preview_effect s)) = Some (nextUrl s)"
    "errorMessage (decode_effect (preview_effect s)) = errorMessage s"
    "decodeResult (decode_effect (preview_effect s)) = None"
    "decodeError (decode_effect (preview_effect s)) = None"
    "isDecoding (decode_effect (preview_effect s)) = True"
    "inputFiles (decode_effect (preview_effect s)) = inputFiles s"
    "mounted (decode_effect (preview_effect s)) = mounted s"
    "nextUrl (decode_effect (preview_effect s)) = Suc (Suc (nextUrl s))"
    "previewCleanup (decode_effect (preview_effect s)) = Some (nextUrl s)"
    "decodeCleanup (decode_effect (preview_effect s)) = Some (Suc (nextUrl s))"
    "objectURLs (decode_effect (preview_effect s)) =
       insert (Suc (nextUrl s)) (insert (nextUrl s) (objectURLs s))"
    "loading (decode_effect (preview_effect s)) = (loading s)(Suc (nextUrl s) \<mapsto> False)"
  using assms by (simp_all add: effect_defs)

lemma commit_same: "selectedFile s = prev \<Longrightarrow> commit prev s = s"
  by (simp add: commit_def)

lemma commit_None:
  assumes "selectedFile s = None" and "prev \<noteq> None"
  shows "selectedFile (commit prev s) = None"
    "imageUrl (commit prev s) = None"
    "errorMessage (commit prev s) = errorMessage s"
    "decodeResult (commit prev s) = None"
    "decodeError (commit prev s) = None"
    "isDecoding (commit prev s) = False"
    "inputFiles (commit prev s) = inputFiles s"
    "mounted (commit prev s) = mounted s"
    "nextUrl (commit prev s) = nextUrl s"
    "previewCleanup (commit prev s) = None"
    "decodeCleanup (commit prev s) = None"
    "objectURLs (commit prev s) =
       objectURLs s - set_option (previewCleanup s) - set_option (decodeCleanup s)"
    "loading (commit prev s) url =
       (if decodeCleanup s = Some url then map_option (\<lambda>c. True) (loading s url)
        else loading s url)"
proof -
  have c: "commit prev s = decode_effect (preview_effect (decode_cleanup (preview_cleanup s)))"
    using assms by (auto simp add: commit_def)
  have n: "selectedFile (decode_cleanup (preview_cleanup s)) = None"
    using assms by (simp add: cleanup_fields)
  show "selectedFile (commit prev s) = None" 
    "imageUrl (commit prev s) = None"
    "errorMessage (commit prev s) = errorMessage s"
    "decodeResult (commit prev s) = None"
    "decodeError (commit prev s) = None"
    "isDecoding (commit prev s) = False"
    "inputFiles (commit prev s) = inputFiles s"
    "mounted (commit prev s) = mounted s"
    "nextUrl (commit prev s) = nextUrl s"
    "previewCleanup (commit prev s) = None"
    "decodeCleanup (commit prev s) = None"
    "objectURLs (commit prev s) =
       objectURLs s - set_option (previewCleanup s) - set_option (decodeCleanup s)"
    "loading (commit prev s) url =
       (if decodeCleanup s = Some url then map_option (\<lambda>c. True) (loading s url)
        else loading s url)"
    unfolding c by (simp_all only: effects_fields_None [OF n] cleanup_fields)
qed

lemma commit_Some:
  assumes "selectedFile s = Some f" and "prev \<noteq> Some f"
  shows "selectedFile (commit prev s) = Some f"
    "imageUrl (commit prev s) = Some (nextUrl s)"
    "errorMessage (commit prev s) = errorMessage s"
    "decodeResult (commit prev s) = None"
    "decodeError (commit prev s) = None"
    "isDecoding (commit prev s) = True"
    "inputFiles (commit prev s) = inputFiles s"
    "mounted (commit prev s) = mounted s"
    "nextUrl (commit prev s) = Suc (Suc (nextUrl s))"
    "previewCleanup (commit prev s) = Some (nextUrl s)"
    "decodeCleanup (commit prev s) = Some (Suc (nextUrl s))"
    "objectURLs (commit prev s) =
       insert (Suc (nextUrl s)) (insert (nextUrl s)
         (objectURLs s - set_option (previewCleanup s) - set_option (decodeCleanup s)))"
    "loading (commit prev s) url =
       (if url = Suc (nextUrl s) then Some False
        else if decodeCleanup s = Some url then map_option (\<lambda>c. True) (loading s url)
        else loading s url)"
proof -
  have c: "commit prev s = decode_effect (preview_effect (decode_cleanup (preview_cleanup s)))"
    using assms by (auto simp add: commit_def)
  have n: "selectedFile (decode_cleanup (preview_cleanup s)) = Some f"
    using assms by (simp add: cleanup_fields)
  show "selectedFile (commit prev s) = Some f"
    "imageUrl (commit prev s) = Some (nextUrl s)"
    "errorMessage (commit prev s) = errorMessage s"
    "decodeResult (commit prev s) = None"
    "decodeError (commit prev s) = None"
    "isDecoding (commit prev s) = True"
    "inputFiles (commit prev s) = inputFiles s"
    "mounted (commit prev s) = mounted s"
    "nextUrl (commit prev s) = Suc (Suc (nextUrl s))"
    "previewCleanup (commit prev s) = Some (nextUrl s)"
    "decodeCleanup (commit prev s) = Some (Suc (nextUrl s))"
    "objectURLs (commit prev s) =
       insert (Suc (nextUrl s)) (insert (nextUrl s)
         (objectURLs s - set_option (previewCleanup s) - set_option (decodeCleanup s)))"
    "loading (commit prev s) url =
       (if url = Suc (nextUrl s) then Some False
        else if decodeCleanup s = Some url then map_option (\<lambda>c. True) (loading s url)
        else loading s url)"
    unfolding c by (simp_all add: effects_fields_Some [OF n] cleanup_fields)
qed

subsection \<open>The invariant holds in every reachable state\<close>

text \<open>
  The invariant holds initially and every event preserves it: a handler followed by a
  commit, the completion of a decode (cancelled or not), and unmounting.
\<close>

lemma consistent_init: "consistent init"
  by (simp add: consistent_def init_def)

lemma consistent_frame:
  assumes "consistent s"
    and "selectedFile s' = selectedFile s" "imageUrl s' = imageUrl s"
    "decodeResult s' = decodeResult s" "decodeError s' = decodeError s"
    "isDecoding s' = isDecoding s" "nextUrl s' = nextUrl s" "objectURLs s' = objectURLs s"
    "previewCleanup s' = previewCleanup s" "decodeCleanup s' = decodeCleanup s"
    "loading s' = loading s"
  shows "consistent s'"
  using assms unfolding consistent_def by simp

lemma consistent_commit:
  assumes "consistent s0" and "selectedFile s \<noteq> selectedFile s0"
    and "loading s = loading s0" "nextUrl s = nextUrl s0" "objectURLs s = objectURLs s0"
    "previewCleanup s = previewCleanup s0" "decodeCleanup s = decodeCleanup s0"
  shows "consistent (commit (selectedFile s0) s)"
proof (cases "selectedFile s")
  case None
  then have p: "selectedFile s0 \<noteq> None" using assms(2) by simp
  show ?thesis
    using assms unfolding consistent_def
    by (auto simp add: commit_None [OF None p] split: if_splits)
next
  case (Some f)
  then have p: "selectedFile s0 \<noteq> Some f" using assms(2) by simp
  show ?thesis
    using assms unfolding consistent_def
    by (auto simp add: commit_Some [OF Some p] less_Suc_eq split: if_splits)
qed

lemma consistent_handler:
  assumes "consistent s0"
    and "loading s = loading s0" "nextUrl s = nextUrl s0" "objectURLs s = objectURLs s0"
    "previewCleanup s = previewCleanup s0" "decodeCleanup s = decodeCleanup s0"
    and "selectedFile s = selectedFile s0 \<Longrightarrow>
           imageUrl s = imageUrl s0 \<and> decodeResult s = decodeResult s0
           \<and> decodeError s = decodeError s0 \<and> isDecoding s = isDecoding s0"
  shows "consistent (commit (selectedFile s0) s)"
proof (cases "selectedFile s = selectedFile s0")
  case True
  then have "commit (selectedFile s0) s = s" by (simp add: commit_def)
  moreover have "consistent s"
    using assms True by (intro consistent_frame [of s0 s]) simp_all
  ultimately show ?thesis by simp
next
  case False
  then show ?thesis using assms by (intro consistent_commit) simp_all
qed

lemma handlePaste_frame:
  "loading (handlePaste items s) = loading s"
  "nextUrl (handlePaste items s) = nextUrl s"
  "objectURLs (handlePaste items s) = objectURLs s"
  "previewCleanup (handlePaste items s) = previewCleanup s"
  "decodeCleanup (handlePaste items s) = decodeCleanup s"
  "imageUrl (handlePaste items s) = imageUrl s"
  "decodeResult (handlePaste items s) = decodeResult s"
  "decodeError (handlePaste items s) = decodeError s"
  "isDecoding (handlePaste items s) = isDecoding s"
  "inputFiles (handlePaste items s) = inputFiles s"
  "mounted (handlePaste items s) = mounted s"
  by (simp_all add: handlePaste_def Let_def split: option.splits list.splits)

lemma handleFileChange_frame:
  "loading (handleFileChange s) = loading s"
  "nextUrl (handleFileChange s) = nextUrl s"
  "objectURLs (handleFileChange s) = objectURLs s"
  "previewCleanup (handleFileChange s) = previewCleanup s"
  "decodeCleanup (handleFileChange s) = decodeCleanup s"
  "imageUrl (handleFileChange s) = imageUrl s"
  "decodeResult (handleFileChange s) = decodeResult s"
  "decodeError (handleFileChange s) = decodeError s"
  "isDecoding (handleFileChange s) = isDecoding s"
  "mounted (handleFileChange s) = mounted s"
  by (simp_all add: handleFileChange_def Let_def split: list.splits)

lemma handleReset_frame:
  "loading (handleReset s) = loading s"
  "nextUrl (handleReset s) = nextUrl s"
  "objectURLs (handleReset s) = objectURLs s"
  "previewCleanup (handleReset s) = previewCleanup s"
  "decodeCleanup (handleReset s) = decodeCleanup s"
  "imageUrl (handleReset s) = imageUrl s"
  "selectedFile (handleReset s) = None"
  "errorMessage (handleReset s) = None"
  "inputFiles (handleReset s) = []"
  "mounted (handleReset s) = mounted s"
  by (simp_all add: handleReset_def)

lemma consistent_FileChange: "consistent s \<Longrightarrow> consistent (step jsQR s (FileChange files))"
  using consistent_handler [of "s\<lparr>inputFiles := files\<rparr>" "handleFileChange (s\<lparr>inputFiles := files\<rparr>)"]
    consistent_frame [of s "s\<lparr>inputFiles := files\<rparr>"]
  by (simp add: handleFileChange_frame)

lemma consistent_Paste: "consistent s \<Longrightarrow> consistent (step jsQR s (Paste items))"
  using consistent_handler [of s "handlePaste items s"]
  by (simp add: handlePaste_frame)

lemma consistent_Reset: "consistent s \<Longrightarrow> consistent (step jsQR s Reset)"
  using consistent_handler [of s "handleReset s"]
  by (auto simp add: handleReset_frame)

lemma step_ImageError_fields:
  assumes "loading s url = Some c"
  shows "selectedFile (step jsQR s (ImageError url)) = selectedFile s"
    "imageUrl (step jsQR s (ImageError url)) = imageUrl s"
    "errorMessage (step jsQR s (ImageError url)) = errorMessage s"
    "decodeResult (step jsQR s (ImageError url)) = decodeResult s"
    "decodeError (step jsQR s (ImageError url)) =
       (if c then decodeError s else Some MSG_IMAGE_LOAD_FAILED)"
    "isDecoding (step jsQR s (ImageError url)) = (c \<and> isDecoding s)"
    "inputFiles (step jsQR s (ImageError url)) = inputFiles s"
    "mounted (step jsQR s (ImageError url)) = mounted s"
    "nextUrl (step jsQR s (ImageError url)) = nextUrl s"
    "previewCleanup (step jsQR s (ImageError url)) = previewCleanup s"
    "decodeCleanup (step jsQR s (ImageError url)) = decodeCleanup s"
    "objectURLs (step jsQR s (ImageError url)) = objectURLs s - {url}"
    "loading (step jsQR s (ImageError url)) = (loading s)(url := None)"
  using assms by (simp_all add: image_onerror_def revokeObjectURL_def)

text \<open>When \<^verbatim>\<open>image.onload\<close> runs to its end: it is cancelled, or there is no context, or
  the image has a positive width and height.\<close>

lemma step_ImageLoad_fields:
  assumes "loading s url = Some c"
  shows "selectedFile (step jsQR s (ImageLoad url img ctx)) = selectedFile s"
    "imageUrl (step jsQR s (ImageLoad url img ctx)) = imageUrl s"
    "errorMessage (step jsQR s (ImageLoad url img ctx)) = errorMessage s"
    "decodeResult (step jsQR s (ImageLoad url img ctx)) =
       (if c \<or> \<not> ctx \<or> naturalWidth img = 0 \<or> naturalHeight img = 0 then decodeResult s
        else case jsQR (pixels img) (naturalWidth img) (naturalHeight img) of
               None \<Rightarrow> decodeResult s | Some text \<Rightarrow> Some text)"
    "decodeError (step jsQR s (ImageLoad url img ctx)) =
       (if c then decodeError s
        else if \<not> ctx then Some MSG_CONTEXT_UNAVAILABLE
        else if naturalWidth img = 0 \<or> naturalHeight img = 0 then decodeError s
        else case jsQR (pixels img) (naturalWidth img) (naturalHeight img) of
               None \<Rightarrow> Some MSG_CODE_NOT_FOUND | Some text \<Rightarrow> decodeError s)"
    "isDecoding (step jsQR s (ImageLoad url img ctx)) =
       ((c \<or> ctx \<and> (naturalWidth img = 0 \<or> naturalHeight img = 0)) \<and> isDecoding s)"
    "inputFiles (step jsQR s (ImageLoad url img ctx)) = inputFiles s"
    "mounted (step jsQR s (ImageLoad url img ctx)) = mounted s"
    "nextUrl (step jsQR s (ImageLoad url img ctx)) = nextUrl s"
    "previewCleanup (step jsQR s (ImageLoad url img ctx)) = previewCleanup s"
    "decodeCleanup (step jsQR s (ImageLoad url img ctx)) = decodeCleanup s"
    "objectURLs (step jsQR s (ImageLoad url img ctx)) =
       (if \<not> c \<and> ctx \<and> (naturalWidth img = 0 \<or> naturalHeight img = 0) then objectURLs s
        else objectURLs s - {url})"
    "loading (step jsQR s (ImageLoad url img ctx)) = (loading s)(url := None)"
  using assms
  by (simp_all add: image_onload_def getImageData_def revokeObjectURL_def Let_def
        split: option.splits)

lemma consistentD:
  assumes "consistent s"
  shows "loading s url = Some False \<Longrightarrow>
        decodeCleanup s = Some url \<and> isDecoding s \<and> decodeResult s = None \<and> decodeError s = None"
    and "loading s url = Some c \<Longrightarrow> url < nextUrl s"
    and "previewCleanup s = Some url \<Longrightarrow> url < nextUrl s"
    and "decodeCleanup s = Some url \<Longrightarrow> url < nextUrl s"
    and "isDecoding s \<Longrightarrow> decodeResult s = None \<and> decodeError s = None"
    and "decodeResult s = None \<or> decodeError s = None"
    and "selectedFile s = None \<Longrightarrow>
        imageUrl s = None \<and> decodeResult s = None \<and> decodeError s = None \<and> \<not> isDecoding s
        \<and> previewCleanup s = None \<and> decodeCleanup s = None"
    and "selectedFile s \<noteq> None \<Longrightarrow>
        imageUrl s \<noteq> None \<and> previewCleanup s = imageUrl s \<and> decodeCleanup s \<noteq> None"
    and "objectURLs s \<subseteq> set_option (previewCleanup s) \<union> set_option (decodeCleanup s)"
  using assms by (simp_all add: consistent_def)

lemma consistent_complete:
  assumes cs: "consistent s" and l: "loading s url = Some c"
    and fr: "selectedFile s' = selectedFile s" "imageUrl s' = imageUrl s"
      "nextUrl s' = nextUrl s" "previewCleanup s' = previewCleanup s"
      "decodeCleanup s' = decodeCleanup s" "loading s' = (loading s)(url := None)"
      "objectURLs s' \<subseteq> objectURLs s"
    and same: "c \<Longrightarrow> decodeResult s' = decodeResult s \<and> decodeError s' = decodeError s
                 \<and> isDecoding s' = isDecoding s"
    and fin: "\<not> c \<Longrightarrow> (isDecoding s' \<longrightarrow> decodeResult s' = None \<and> decodeError s' = None)
                 \<and> (decodeResult s' = None \<or> decodeError s' = None)"
  shows "consistent s'"
proof -
  note d = consistentD [OF cs]
  have cur: "\<not> c \<Longrightarrow> decodeCleanup s = Some url"
    using d(1) [of url] l by simp
  have other: "loading s u = Some False \<Longrightarrow> u \<noteq> url \<Longrightarrow> c" for u
    using d(1) [of u] cur by (cases c) simp_all
  show ?thesis
    unfolding consistent_def
  proof (intro conjI allI impI)
    fix u assume "loading s' u = Some False"
    then have u: "loading s u = Some False" "u \<noteq> url"
      unfolding fr by (simp_all split: if_splits)
    then have c by (rule other)
    then show "decodeCleanup s' = Some u" "isDecoding s'" "decodeResult s' = None"
      "decodeError s' = None"
      using d(1) [OF u(1)] same fr by simp_all
  next
    fix u c' assume "loading s' u = Some c'"
    then have "loading s u = Some c'" unfolding fr by (simp split: if_splits)
    then show "u < nextUrl s'" unfolding fr by (rule d(2))
  next
    fix u assume "previewCleanup s' = Some u \<or> decodeCleanup s' = Some u"
    then show "u < nextUrl s'" unfolding fr using d(3) [of u] d(4) [of u] by (elim disjE)
  next
    assume i: "isDecoding s'"
    show "decodeResult s' = None" "decodeError s' = None"
      using i same fin d(5) by (cases c; simp)+
  next
    show "decodeResult s' = None \<or> decodeError s' = None"
      using same fin d(6) by (cases c) simp_all
  next
    assume "selectedFile s' = None"
    then have n: "selectedFile s = None" unfolding fr .
    then have c using cur d(7) [OF n] by (cases c) simp_all
    then show "imageUrl s' = None" "decodeResult s' = None" "decodeError s' = None"
      "\<not> isDecoding s'" "previewCleanup s' = None" "decodeCleanup s' = None"
      using d(7) [OF n] same fr by simp_all
  next
    assume "selectedFile s' \<noteq> None"
    then have n: "selectedFile s \<noteq> None" unfolding fr .
    show "imageUrl s' \<noteq> None" "previewCleanup s' = imageUrl s'" "decodeCleanup s' \<noteq> None"
      unfolding fr using d(8) [OF n] by simp_all
  next
    show "objectURLs s' \<subseteq> set_option (previewCleanup s') \<union> set_option (decodeCleanup s')"
      using fr(7) d(9) unfolding fr(4,5) by (rule subset_trans)
  qed
qed

lemma consistent_ImageError: "consistent s \<Longrightarrow> consistent (step jsQR s (ImageError url))"
proof (cases "loading s url")
  case None
  then show "consistent s \<Longrightarrow> ?thesis" by simp
next
  case (Some c)
  assume cs: "consistent s"
  have p: "decodeResult s = None" "decodeError s = None" if "\<not> c"
    using consistentD(1) [OF cs, of url] Some that by (cases c; simp)+
  show ?thesis
    by (rule consistent_complete [OF cs Some])
       (simp_all add: p step_ImageError_fields [OF Some] del: step.simps)
qed

lemma consistent_ImageLoad:
  "consistent s \<Longrightarrow> consistent (step jsQR s (ImageLoad url img ctx))"
proof (cases "loading s url")
  case None
  then show "consistent s \<Longrightarrow> ?thesis" by simp
next
  case (Some c)
  assume cs: "consistent s"
  have p: "decodeResult s = None" "decodeError s = None" if "\<not> c"
    using consistentD(1) [OF cs, of url] Some that by (cases c; simp)+
  show ?thesis
    by (rule consistent_complete [OF cs Some])
       (simp_all add: p step_ImageLoad_fields [OF Some] del: step.simps split: option.splits)
qed

lemma unmount_fields:
  "selectedFile (unmount s) = selectedFile s"
  "imageUrl (unmount s) = imageUrl s"
  "errorMessage (unmount s) = errorMessage s"
  "decodeResult (unmount s) = decodeResult s"
  "decodeError (unmount s) = decodeError s"
  "isDecoding (unmount s) = isDecoding s"
  "inputFiles (unmount s) = inputFiles s"
  "mounted (unmount s) = False"
  "nextUrl (unmount s) = nextUrl s"
  "previewCleanup (unmount s) = previewCleanup s"
  "decodeCleanup (unmount s) = decodeCleanup s"
  "objectURLs (unmount s) =
     objectURLs s - set_option (previewCleanup s) - set_option (decodeCleanup s)"
  "loading (unmount s) url =
     (if decodeCleanup s = Some url then map_option (\<lambda>c. True) (loading s url)
      else loading s url)"
  by (simp_all add: unmount_def cleanup_fields)

lemma consistent_Unmount: "consistent s \<Longrightarrow> consistent (step jsQR s Unmount)"
  unfolding consistent_def
  by (auto simp add: unmount_fields split: if_splits)

lemma consistent_step: "consistent s \<Longrightarrow> consistent (step jsQR s e)"
  by (cases e)
     (simp_all only: consistent_FileChange consistent_Paste consistent_Reset
        consistent_ImageLoad consistent_ImageError consistent_Unmount)

lemma run_Nil: "run jsQR s [] = s"
  by (simp add: run_def)

lemma run_Cons: "run jsQR s (e # evs) = run jsQR (step jsQR s e) evs"
  by (simp add: run_def)

lemma run_append: "run jsQR s (evs @ evs') = run jsQR (run jsQR s evs) evs'"
  by (simp add: run_def)

lemma consistent_run: "consistent s \<Longrightarrow> consistent (run jsQR s evs)"
  by (induction evs arbitrary: s) (simp_all add: run_Nil run_Cons consistent_step)

lemma consistent_reachable: "consistent (run jsQR init evs)"
  by (simp add: consistent_run consistent_init)

subsection \<open>States that agree up to a stale decode\<close>

text \<open>
  Every event takes two states that agree up to a stale decode to two such states, and
  the load or error event of a stale decode takes a state to one that agrees with it.
\<close>

lemma agree_displayed: "agree a s t \<Longrightarrow> displayed s = displayed t"
  by (simp add: agree_def displayed_def)

lemma agree_refl: "stale a s \<Longrightarrow> agree a s s"
  by (simp add: agree_def)

lemma agree_commit:
  assumes "agree a s t"
  shows "agree a (commit prev s) (commit prev t)"
proof (cases "selectedFile s = prev")
  case True
  then have "selectedFile t = prev" using assms by (simp add: agree_def)
  then show ?thesis using True assms by (simp add: commit_same)
next
  case False
  then have ft: "selectedFile t \<noteq> prev" using assms by (simp add: agree_def)
  show ?thesis
  proof (cases "selectedFile s")
    case None
    then have nt: "selectedFile t = None" using assms by (simp add: agree_def)
    have p: "prev \<noteq> None" using False None by simp
    show ?thesis
      using assms unfolding agree_def stale_def
      by (simp add: commit_None [OF None p] commit_None [OF nt p])
  next
    case (Some f)
    then have st: "selectedFile t = Some f" using assms by (simp add: agree_def)
    have p: "prev \<noteq> Some f" using False Some by simp
    show ?thesis
      using assms unfolding agree_def stale_def
      by (simp add: commit_Some [OF Some p] commit_Some [OF st p])
  qed
qed

lemma agree_handlePaste: "agree a s t \<Longrightarrow> agree a (handlePaste items s) (handlePaste items t)"
  unfolding agree_def stale_def
  by (simp add: handlePaste_def Let_def split: option.splits list.splits)

lemma agree_handleFileChange:
  "agree a s t \<Longrightarrow>
   agree a (handleFileChange (s\<lparr>inputFiles := files\<rparr>)) (handleFileChange (t\<lparr>inputFiles := files\<rparr>))"
  unfolding agree_def stale_def
  by (simp add: handleFileChange_def Let_def split: list.splits)

lemma agree_handleReset: "agree a s t \<Longrightarrow> agree a (handleReset s) (handleReset t)"
  unfolding agree_def stale_def by (simp add: handleReset_def)

lemma agree_unmount: "agree a s t \<Longrightarrow> agree a (unmount s) (unmount t)"
  unfolding agree_def stale_def by (simp add: unmount_fields)

lemma agree_ImageError:
  assumes "agree a s t"
  shows "agree a (step jsQR s (ImageError url)) (step jsQR t (ImageError url))"
proof (cases "url = a")
  case True
  have one: "agree a (step jsQR r (ImageError a)) r'" if "agree a r r'" for r r'
  proof (cases "loading r a")
    case None
    then show ?thesis using that by simp
  next
    case (Some c)
    then have c using that by (cases c) (simp_all add: agree_def stale_def)
    then show ?thesis
      using that unfolding agree_def stale_def
      by (simp add: step_ImageError_fields [OF Some] del: step.simps)
  qed
  have sym: "agree a r' r" if "agree a r r'" for r r'
    using that unfolding agree_def by simp
  have "agree a (step jsQR s (ImageError a)) t" using assms by (rule one)
  then have "agree a t (step jsQR s (ImageError a))" by (rule sym)
  then have "agree a (step jsQR t (ImageError a)) (step jsQR s (ImageError a))" by (rule one)
  then show ?thesis unfolding True by (rule sym)
next
  case False
  then have eq: "loading s url = loading t url" using assms by (simp add: agree_def)
  show ?thesis
  proof (cases "loading s url")
    case None
    then show ?thesis using eq assms by simp
  next
    case (Some c)
    then have st: "loading t url = Some c" using eq by simp
    show ?thesis
      using assms False unfolding agree_def stale_def
      by (simp add: step_ImageError_fields [OF Some] step_ImageError_fields [OF st]
            del: step.simps)
  qed
qed

lemma agree_ImageLoad:
  assumes "agree a s t"
  shows "agree a (step jsQR s (ImageLoad url img ctx)) (step jsQR t (ImageLoad url img ctx))"
proof (cases "url = a")
  case True
  have one: "agree a (step jsQR r (ImageLoad a img ctx)) r'" if "agree a r r'" for r r'
  proof (cases "loading r a")
    case None
    then show ?thesis using that by simp
  next
    case (Some c)
    then have c using that by (cases c) (simp_all add: agree_def stale_def)
    then show ?thesis
      using that unfolding agree_def stale_def
      by (simp add: step_ImageLoad_fields [OF Some] del: step.simps)
  qed
  have sym: "agree a r' r" if "agree a r r'" for r r'
    using that unfolding agree_def by simp
  have "agree a (step jsQR s (ImageLoad a img ctx)) t" using assms by (rule one)
  then have "agree a t (step jsQR s (ImageLoad a img ctx))" by (rule sym)
  then have "agree a (step jsQR t (ImageLoad a img ctx)) (step jsQR s (ImageLoad a img ctx))"
    by (rule one)
  then show ?thesis unfolding True by (rule sym)
next
  case False
  then have eq: "loading s url = loading t url" using assms by (simp add: agree_def)
  show ?thesis
  proof (cases "loading s url")
    case None
    then show ?thesis using eq assms by simp
  next
    case (Some c)
    then have st: "loading t url = Some c" using eq by simp
    show ?thesis
      using assms False unfolding agree_def stale_def
      by (simp add: step_ImageLoad_fields [OF Some] step_ImageLoad_fields [OF st]
            del: step.simps split: option.splits)
  qed
qed

lemma agree_step: "agree a s t \<Longrightarrow> agree a (step jsQR s e) (step jsQR t e)"
proof (cases e)
  case (FileChange files)
  assume ag: "agree a s t"
  then have m: "mounted t = mounted s" "selectedFile t = selectedFile s"
    by (simp_all add: agree_def)
  show ?thesis
  proof (cases "mounted s")
    case True
    have ss: "step jsQR s (FileChange files) =
        commit (selectedFile s) (handleFileChange (s\<lparr>inputFiles := files\<rparr>))"
      and tt: "step jsQR t (FileChange files) =
        commit (selectedFile s) (handleFileChange (t\<lparr>inputFiles := files\<rparr>))"
      using True m by simp_all
    show ?thesis
      unfolding FileChange ss tt by (rule agree_commit [OF agree_handleFileChange [OF ag]])
  next
    case False
    then show ?thesis using ag m unfolding FileChange by simp
  qed
next
  case (Paste items)
  assume ag: "agree a s t"
  then have m: "mounted t = mounted s" "selectedFile t = selectedFile s"
    by (simp_all add: agree_def)
  show ?thesis
  proof (cases "mounted s")
    case True
    have ss: "step jsQR s (Paste items) = commit (selectedFile s) (handlePaste items s)"
      and tt: "step jsQR t (Paste items) = commit (selectedFile s) (handlePaste items t)"
      using True m by simp_all
    show ?thesis
      unfolding Paste ss tt by (rule agree_commit [OF agree_handlePaste [OF ag]])
  next
    case False
    then show ?thesis using ag m unfolding Paste by simp
  qed
next
  case Reset
  assume ag: "agree a s t"
  then have m: "mounted t = mounted s" "selectedFile t = selectedFile s"
    by (simp_all add: agree_def)
  show ?thesis
  proof (cases "mounted s \<and> selectedFile s \<noteq> None")
    case True
    have ss: "step jsQR s Reset = commit (selectedFile s) (handleReset s)"
      and tt: "step jsQR t Reset = commit (selectedFile s) (handleReset t)"
      using True m by simp_all
    show ?thesis
      unfolding Reset ss tt by (rule agree_commit [OF agree_handleReset [OF ag]])
  next
    case False
    then have "step jsQR s Reset = s" "step jsQR t Reset = t" using m by auto
    then show ?thesis using ag unfolding Reset by simp
  qed
next
  case (ImageLoad url img ctx)
  assume "agree a s t"
  then show ?thesis unfolding ImageLoad by (rule agree_ImageLoad)
next
  case (ImageError url)
  assume "agree a s t"
  then show ?thesis unfolding ImageError by (rule agree_ImageError)
next
  case Unmount
  assume ag: "agree a s t"
  then have m: "mounted t = mounted s" by (simp add: agree_def)
  show ?thesis using ag agree_unmount [OF ag] unfolding Unmount by (simp add: m)
qed

lemma agree_run: "agree a s t \<Longrightarrow> agree a (run jsQR s evs) (run jsQR t evs)"
  by (induction evs arbitrary: s t) (simp_all add: run_Nil run_Cons agree_step)

lemma stale_run: "stale a s \<Longrightarrow> stale a (run jsQR s evs)"
  using agree_run [of a s s jsQR evs] by (simp add: agree_def)

lemma step_keeps_selectedFile:
  "selectedFile (step jsQR s (ImageLoad url img ctx)) = selectedFile s"
  "selectedFile (step jsQR s (ImageError url)) = selectedFile s"
  "selectedFile (step jsQR s Unmount) = selectedFile s"
proof -
  show "selectedFile (step jsQR s (ImageLoad url img ctx)) = selectedFile s"
  proof (cases "loading s url")
    case None then show ?thesis by simp
  next
    case (Some c) then show ?thesis by (simp add: step_ImageLoad_fields [OF Some] del: step.simps)
  qed
  show "selectedFile (step jsQR s (ImageError url)) = selectedFile s"
  proof (cases "loading s url")
    case None then show ?thesis by simp
  next
    case (Some c) then show ?thesis by (simp add: step_ImageError_fields [OF Some] del: step.simps)
  qed
  show "selectedFile (step jsQR s Unmount) = selectedFile s"
    by (simp add: unmount_fields)
qed

subsection \<open>Replacing or clearing the selected file\<close>

text \<open>A handler followed by the effects: what becomes of the decode that was current.\<close>

lemma superseded_commit:
  assumes "consistent s0" and "loading s0 a = Some False"
    and "selectedFile s \<noteq> selectedFile s0"
    and "loading s = loading s0" "nextUrl s = nextUrl s0" "decodeCleanup s = decodeCleanup s0"
  shows "loading (commit (selectedFile s0) s) a = Some True
    \<and> a < nextUrl (commit (selectedFile s0) s)
    \<and> a \<notin> objectURLs (commit (selectedFile s0) s)"
proof -
  have cur: "decodeCleanup s0 = Some a" and fresh: "a < nextUrl s0"
    using consistentD(1) [OF assms(1,2)] consistentD(2) [OF assms(1,2)] by simp_all
  show ?thesis
  proof (cases "selectedFile s")
    case None
    then have p: "selectedFile s0 \<noteq> None" using assms(3) by simp
    show ?thesis
      using cur fresh assms(2,4-) by (simp add: commit_None [OF None p])
  next
    case (Some f)
    then have p: "selectedFile s0 \<noteq> Some f" using assms(3) by simp
    show ?thesis
      using cur fresh assms(2,4-) by (simp add: commit_Some [OF Some p])
  qed
qed

lemmas run_defs = run_def init_def commit_def createObjectURL_def revokeObjectURL_def
  preview_effect_def preview_cleanup_def decode_effect_def decode_cleanup_def unmount_def
  handlePaste_def handleFileChange_def handleReset_def image_onload_def image_onerror_def
  getImageData_def validateFile_def ACCEPTED_MIME_TYPES_def MAX_FILE_SIZE_BYTES_def
  truthy_def Let_def

lemma superseded_step:
  assumes cs: "consistent s" and l: "loading s a = Some False"
    and ch: "selectedFile (step jsQR s e) \<noteq> selectedFile s"
  shows "loading (step jsQR s e) a = Some True \<and> a < nextUrl (step jsQR s e)
    \<and> a \<notin> objectURLs (step jsQR s e)"
proof (cases e)
  case (FileChange files)
  let ?h = "handleFileChange (s\<lparr>inputFiles := files\<rparr>)"
  have m: "mounted s" using ch unfolding FileChange by (cases "mounted s") simp_all
  then have st: "step jsQR s e = commit (selectedFile s) ?h" unfolding FileChange by simp
  have "selectedFile ?h \<noteq> selectedFile s"
    using ch unfolding st by (cases "selectedFile ?h = selectedFile s") (simp_all add: commit_same)
  then show ?thesis
    unfolding st using cs l by (intro superseded_commit) (simp_all add: handleFileChange_frame)
next
  case (Paste items)
  let ?h = "handlePaste items s"
  have m: "mounted s" using ch unfolding Paste by (cases "mounted s") simp_all
  then have st: "step jsQR s e = commit (selectedFile s) ?h" unfolding Paste by simp
  have "selectedFile ?h \<noteq> selectedFile s"
    using ch unfolding st by (cases "selectedFile ?h = selectedFile s") (simp_all add: commit_same)
  then show ?thesis
    unfolding st using cs l by (intro superseded_commit) (simp_all add: handlePaste_frame)
next
  case Reset
  let ?h = "handleReset s"
  have m: "mounted s \<and> selectedFile s \<noteq> None"
    using ch unfolding Reset by (cases "mounted s \<and> selectedFile s \<noteq> None") auto
  then have st: "step jsQR s e = commit (selectedFile s) ?h" unfolding Reset by simp
  have "selectedFile ?h \<noteq> selectedFile s"
    using ch unfolding st by (cases "selectedFile ?h = selectedFile s") (simp_all add: commit_same)
  then show ?thesis
    unfolding st using cs l by (intro superseded_commit) (simp_all add: handleReset_frame)
next
  case (ImageLoad url img ctx)
  then show ?thesis using ch step_keeps_selectedFile(1) [of jsQR s url img ctx] by simp
next
  case (ImageError url)
  then show ?thesis using ch step_keeps_selectedFile(2) [of jsQR s url] by simp
next
  case Unmount
  then show ?thesis using ch step_keeps_selectedFile(3) [of jsQR s] by simp
qed

lemma stale_completion:
  assumes "stale a s" and "ea = ImageLoad a img ctx \<or> ea = ImageError a"
  shows "agree a s (step jsQR s ea)"
proof -
  have r: "agree a s s" using assms(1) by (rule agree_refl)
  have sym: "agree a r' r" if "agree a r r'" for r r'
    using that unfolding agree_def by simp
  show ?thesis
  proof (cases "loading s a")
    case None
    then have "step jsQR s ea = s" using assms(2) by auto
    then show ?thesis using r by simp
  next
    case (Some c)
    then have c using assms(1) by (cases c) (simp_all add: stale_def)
    then show ?thesis
      using assms r unfolding agree_def stale_def
      by (auto simp add: step_ImageLoad_fields [OF Some] step_ImageError_fields [OF Some]
            simp del: step.simps)
  qed
qed

subsection \<open>Messages, and events that change the selected file\<close>

lemma MSG_decode_distinct:
  "MSG_CODE_NOT_FOUND \<noteq> MSG_IMAGE_LOAD_FAILED"
  "MSG_CODE_NOT_FOUND \<noteq> MSG_CONTEXT_UNAVAILABLE"
  "MSG_IMAGE_LOAD_FAILED \<noteq> MSG_CODE_NOT_FOUND"
  "MSG_IMAGE_LOAD_FAILED \<noteq> MSG_CONTEXT_UNAVAILABLE"
  "MSG_CONTEXT_UNAVAILABLE \<noteq> MSG_CODE_NOT_FOUND"
  "MSG_CONTEXT_UNAVAILABLE \<noteq> MSG_IMAGE_LOAD_FAILED"
  by (simp_all add: MSG_CODE_NOT_FOUND_def MSG_IMAGE_LOAD_FAILED_def MSG_CONTEXT_UNAVAILABLE_def)

lemma MSG_paste:
  "MSG_PASTE_NO_ITEMS = MSG_PASTE_NO_IMAGE_ITEM"
  "MSG_PASTE_READ_FAILED \<noteq> MSG_PASTE_NO_ITEMS"
  "MSG_PASTE_READ_FAILED \<noteq> MSG_PASTE_NO_IMAGE_ITEM"
  "MSG_PASTE_NO_ITEMS \<noteq> []" "MSG_PASTE_NO_IMAGE_ITEM \<noteq> []" "MSG_PASTE_READ_FAILED \<noteq> []"
  by (simp_all add: MSG_PASTE_NO_ITEMS_def MSG_PASTE_NO_IMAGE_ITEM_def MSG_PASTE_READ_FAILED_def)

lemma validateFile_truthy: "validateFile file = Some err \<Longrightarrow> truthy (validateFile file)"
  by (auto simp add: validateFile_def truthy_def MSG_UNSUPPORTED_FORMAT_def MSG_FILE_TOO_LARGE_def
        split: if_splits)

lemma step_changes_selection:
  assumes "selectedFile (step jsQR s e) \<noteq> selectedFile s"
  shows "\<exists>h. step jsQR s e = commit (selectedFile s) h
    \<and> selectedFile h \<noteq> selectedFile s \<and> selectedFile (step jsQR s e) = selectedFile h
    \<and> loading h = loading s \<and> nextUrl h = nextUrl s \<and> objectURLs h = objectURLs s
    \<and> previewCleanup h = previewCleanup s \<and> decodeCleanup h = decodeCleanup s"
proof -
  have sel: "selectedFile (commit prev h) = selectedFile h" for prev h
  proof (cases "selectedFile h = prev")
    case True then show ?thesis by (simp add: commit_same)
  next
    case False
    then show ?thesis
      by (cases "selectedFile h") (simp_all add: commit_None commit_Some)
  qed
  have via: ?thesis
    if st: "step jsQR s e = commit (selectedFile s) h" and fr: "loading h = loading s"
      "nextUrl h = nextUrl s" "objectURLs h = objectURLs s" "previewCleanup h = previewCleanup s"
      "decodeCleanup h = decodeCleanup s" for h
  proof -
    have "selectedFile (step jsQR s e) = selectedFile h" unfolding st by (rule sel)
    moreover from this have "selectedFile h \<noteq> selectedFile s" using assms by simp
    ultimately show ?thesis using st fr by (intro exI [of _ h]) simp
  qed
  show ?thesis
  proof (cases e)
    case (FileChange files)
    have "mounted s" using assms unfolding FileChange by (cases "mounted s") simp_all
    then show ?thesis
      by (intro via [of "handleFileChange (s\<lparr>inputFiles := files\<rparr>)"])
         (simp_all add: FileChange handleFileChange_frame)
  next
    case (Paste items)
    have "mounted s" using assms unfolding Paste by (cases "mounted s") simp_all
    then show ?thesis
      by (intro via [of "handlePaste items s"]) (simp_all add: Paste handlePaste_frame)
  next
    case Reset
    have "mounted s \<and> selectedFile s \<noteq> None"
      using assms unfolding Reset by (cases "mounted s \<and> selectedFile s \<noteq> None") auto
    then show ?thesis
      by (intro via [of "handleReset s"]) (simp_all add: Reset handleReset_frame)
  next
    case (ImageLoad url img ctx)
    then show ?thesis using assms step_keeps_selectedFile(1) [of jsQR s url img ctx] by simp
  next
    case (ImageError url)
    then show ?thesis using assms step_keeps_selectedFile(2) [of jsQR s url] by simp
  next
    case Unmount
    then show ?thesis using assms step_keeps_selectedFile(3) [of jsQR s] by simp
  qed
qed

lemma started_step:
  assumes "selectedFile (step jsQR s e) \<noteq> selectedFile s"
    and "selectedFile (step jsQR s e) = Some f"
  shows "isDecoding (step jsQR s e) \<and> decodeResult (step jsQR s e) = None
    \<and> decodeError (step jsQR s e) = None
    \<and> decodeCleanup (step jsQR s e) = Some (Suc (nextUrl s))
    \<and> loading (step jsQR s e) (Suc (nextUrl s)) = Some False
    \<and> Suc (nextUrl s) \<in> objectURLs (step jsQR s e)"
proof -
  from step_changes_selection [OF assms(1)]
  obtain h where h: "step jsQR s e = commit (selectedFile s) h"
    "selectedFile h \<noteq> selectedFile s" "selectedFile (step jsQR s e) = selectedFile h"
    "nextUrl h = nextUrl s"
    by blast
  have sf: "selectedFile h = Some f" using h(3) assms(2) by simp
  have p: "selectedFile s \<noteq> Some f" using h(2) sf by simp
  show ?thesis unfolding h(1) by (simp add: commit_Some [OF sf p] h(4))
qed

lemma released_step:
  assumes cs: "consistent s" and cur: "previewCleanup s = Some url \<or> decodeCleanup s = Some url"
    and ch: "selectedFile (step jsQR s e) \<noteq> selectedFile s"
  shows "url \<notin> objectURLs (step jsQR s e)"
proof -
  from step_changes_selection [OF ch]
  obtain h where h: "step jsQR s e = commit (selectedFile s) h"
    "selectedFile h \<noteq> selectedFile s" "nextUrl h = nextUrl s"
    "previewCleanup h = previewCleanup s" "decodeCleanup h = decodeCleanup s"
    by blast
  have fresh: "url < nextUrl s"
    using cur consistentD(3) [OF cs, of url] consistentD(4) [OF cs, of url] by (elim disjE)
  show ?thesis
  proof (cases "selectedFile h")
    case None
    then have p: "selectedFile s \<noteq> None" using h(2) by simp
    show ?thesis unfolding h(1) using cur by (auto simp add: commit_None [OF None p] h(3-))
  next
    case (Some f)
    then have p: "selectedFile s \<noteq> Some f" using h(2) by simp
    show ?thesis
      unfolding h(1) using cur fresh by (auto simp add: commit_Some [OF Some p] h(3-))
  qed
qed

lemma commit_unchanged: "commit (selectedFile s) (s\<lparr>errorMessage := e\<rparr>) = s\<lparr>errorMessage := e\<rparr>"
  by (simp add: commit_def)

lemma image_onload_returns:
  assumes "cancelled \<or> \<not> ctx \<or> (0 < naturalWidth img \<and> 0 < naturalHeight img)"
  shows "\<exists>t'. image_onload jsQR url cancelled img ctx t = Inr t'"
  using assms by (auto simp add: image_onload_def getImageData_def Let_def)

lemma MSG_validation_nonempty: "MSG_UNSUPPORTED_FORMAT \<noteq> []" "MSG_FILE_TOO_LARGE \<noteq> []"
  by (simp_all add: MSG_UNSUPPORTED_FORMAT_def MSG_FILE_TOO_LARGE_def)

subsection \<open>Where the object URL of a decode is revoked\<close>

text \<open>
  Every exit of the decode pipeline that the code foresees revokes the object URL: the
  load event that decodes (code found or not), the load event without a 2D context, the
  error event, either event of a cancelled decode, and the cleanup of the decode effect
  when the selected file is replaced or cleared and when the component unmounts. A
  decode that is not cancelled is the one of the current decode effect, and every live
  object URL is the one of the current preview effect or of the current decode effect.
\<close>

lemma decode_url_released_when_handler_returns:
  assumes "s = run jsQR init evs"
  shows "(loading s url = Some False \<and> ctx \<and> 0 < naturalWidth img \<and> 0 < naturalHeight img \<longrightarrow>
            url \<notin> objectURLs (step jsQR s (ImageLoad url img ctx)))
    \<and> (loading s url = Some False \<and> \<not> ctx \<longrightarrow>
            url \<notin> objectURLs (step jsQR s (ImageLoad url img ctx)))
    \<and> (loading s url = Some False \<longrightarrow> url \<notin> objectURLs (step jsQR s (ImageError url)))
    \<and> (loading s url = Some True \<longrightarrow>
            url \<notin> objectURLs (step jsQR s (ImageLoad url img ctx))
            \<and> url \<notin> objectURLs (step jsQR s (ImageError url)))
    \<and> (decodeCleanup s = Some url \<and> selectedFile (step jsQR s e) \<noteq> selectedFile s \<longrightarrow>
            url \<notin> objectURLs (step jsQR s e))
    \<and> (decodeCleanup s = Some url \<and> mounted s \<longrightarrow> url \<notin> objectURLs (step jsQR s Unmount))
    \<and> (loading s url = Some False \<longrightarrow> decodeCleanup s = Some url)
    \<and> objectURLs s \<subseteq> set_option (previewCleanup s) \<union> set_option (decodeCleanup s)"
proof -
  have cs: "consistent s" unfolding assms by (rule consistent_reachable)
  have a: "url \<notin> objectURLs (step jsQR s (ImageLoad url img ctx))"
    if "loading s url = Some c" and "c \<or> \<not> ctx \<or> (0 < naturalWidth img \<and> 0 < naturalHeight img)"
    for c
    using that(2) by (auto simp add: step_ImageLoad_fields [OF that(1)] simp del: step.simps)
  have b: "url \<notin> objectURLs (step jsQR s (ImageError url))" if "loading s url = Some c" for c
    by (simp add: step_ImageError_fields [OF that] del: step.simps)
  have c: "url \<notin> objectURLs (step jsQR s e)"
    if "decodeCleanup s = Some url" and "selectedFile (step jsQR s e) \<noteq> selectedFile s"
    using released_step [OF cs _ that(2), of url] that(1) by simp
  have d: "url \<notin> objectURLs (step jsQR s Unmount)" if "decodeCleanup s = Some url" and "mounted s"
    using that by (simp add: unmount_fields)
  have e: "decodeCleanup s = Some url" if "loading s url = Some False"
    using consistentD(1) [OF cs that] by simp
  show ?thesis
    using a [of False] a [of True] b [of False] b [of True] c d e consistentD(9) [OF cs]
    by blast
qed

section \<open>Claims\<close>

subsection \<open>C1: a superseded decode never reaches the display\<close>

text \<open>
  C1. Let a decode \<open>a\<close> be in flight and not cancelled in a reachable state, and let the
  next event replace or clear the selected file. Then, whatever events follow and
  whenever the load or error event \<open>ea\<close> of \<open>a\<close>'s image fires afterwards, the six displayed
  cells at the end of the run are those of the same run without \<open>ea\<close>: the result of the
  superseded decode is discarded, and what is displayed comes from the later candidate
  alone.
\<close>

theorem stale_decode_discarded:
  assumes "loading (run jsQR init evs0) a = Some False"
    and "selectedFile (step jsQR (run jsQR init evs0) e) \<noteq> selectedFile (run jsQR init evs0)"
    and "ea = ImageLoad a img ctx \<or> ea = ImageError a"
  shows "displayed (run jsQR init (evs0 @ e # evs1 @ ea # evs2))
       = displayed (run jsQR init (evs0 @ e # evs1 @ evs2))"
proof -
  let ?s = "run jsQR init evs0"
  let ?s2 = "run jsQR (step jsQR ?s e) evs1"
  have "stale a (step jsQR ?s e)"
    using superseded_step [OF consistent_reachable assms(1,2)] by (simp add: stale_def)
  then have "stale a ?s2" by (rule stale_run)
  then have "agree a ?s2 (step jsQR ?s2 ea)" using assms(3) by (rule stale_completion)
  then have "agree a (run jsQR ?s2 evs2) (run jsQR (step jsQR ?s2 ea) evs2)" by (rule agree_run)
  then have "displayed (run jsQR (step jsQR ?s2 ea) evs2) = displayed (run jsQR ?s2 evs2)"
    by (simp add: agree_displayed)
  then show ?thesis by (simp add: run_append run_Cons)
qed

text \<open>
  File A is chosen, then file B before A's image has loaded; A's image loads (its
  decoder result would be the text A), then B's: the display holds B's text only.
\<close>

theorem stale_decode_discarded_witness:
  "loading (run (\<lambda>px w h. if px = [1] then Some ''A'' else Some ''B'') init
       [FileChange [\<lparr>file_ref = 0, file_type = ''image/png'', file_size = 10, file_name = ''a.png''\<rparr>]]) 1
     = Some False
   \<and> displayed (run (\<lambda>px w h. if px = [1] then Some ''A'' else Some ''B'') init
       ([FileChange [\<lparr>file_ref = 0, file_type = ''image/png'', file_size = 10, file_name = ''a.png''\<rparr>]]
        @ FileChange [\<lparr>file_ref = 1, file_type = ''image/png'', file_size = 20, file_name = ''b.png''\<rparr>]
        # [] @ ImageLoad 1 \<lparr>naturalWidth = 2, naturalHeight = 2, pixels = [1]\<rparr> True
        # [ImageLoad 3 \<lparr>naturalWidth = 2, naturalHeight = 2, pixels = [2]\<rparr> True]))
     = (Some \<lparr>file_ref = 1, file_type = ''image/png'', file_size = 20, file_name = ''b.png''\<rparr>,
        Some 2, None, Some ''B'', None, False)"
  using stale_decode_discarded
    [of "\<lambda>px w h. if px = [1] then Some ''A'' else Some ''B''"
        "[FileChange [\<lparr>file_ref = 0, file_type = ''image/png'', file_size = 10, file_name = ''a.png''\<rparr>]]"
        1
        "FileChange [\<lparr>file_ref = 1, file_type = ''image/png'', file_size = 20, file_name = ''b.png''\<rparr>]"
        "ImageLoad 1 \<lparr>naturalWidth = 2, naturalHeight = 2, pixels = [1]\<rparr> True"
        "\<lparr>naturalWidth = 2, naturalHeight = 2, pixels = [1]\<rparr>" True
        "[]" "[ImageLoad 3 \<lparr>naturalWidth = 2, naturalHeight = 2, pixels = [2]\<rparr> True]"]
  by (simp add: run_defs displayed_def)

subsection \<open>C2: the format check of validateFile\<close>

text \<open>
  C2. A file whose declared MIME type is not exactly one of \<^verbatim>\<open>image/png\<close>, \<^verbatim>\<open>image/jpeg\<close>,
  \<^verbatim>\<open>image/webp\<close> (compared as strings, so case matters) is rejected with the
  unsupported-format message whatever its size; a file whose type is one of the three is
  never rejected with that message.
\<close>

theorem validateFile_format_check:
  "(file_type file \<notin> {''image/png'', ''image/jpeg'', ''image/webp''}
      \<longrightarrow> validateFile file = Some MSG_UNSUPPORTED_FORMAT)
   \<and> (file_type file \<in> {''image/png'', ''image/jpeg'', ''image/webp''}
      \<longrightarrow> validateFile file \<noteq> Some MSG_UNSUPPORTED_FORMAT)"
  using MSG_UNSUPPORTED_FORMAT_neq_MSG_FILE_TOO_LARGE
  by (simp add: validateFile_def ACCEPTED_MIME_TYPES_def)

theorem validateFile_format_check_witness:
  "file_type \<lparr>file_ref = 0, file_type = ''IMAGE/PNG'', file_size = 10, file_name = ''a.png''\<rparr>
      \<notin> {''image/png'', ''image/jpeg'', ''image/webp''}
   \<and> validateFile \<lparr>file_ref = 0, file_type = ''IMAGE/PNG'', file_size = 10, file_name = ''a.png''\<rparr>
      = Some MSG_UNSUPPORTED_FORMAT
   \<and> file_type \<lparr>file_ref = 1, file_type = ''image/webp'', file_size = 6000000, file_name = ''b.webp''\<rparr>
      \<in> {''image/png'', ''image/jpeg'', ''image/webp''}
   \<and> validateFile \<lparr>file_ref = 1, file_type = ''image/webp'', file_size = 6000000, file_name = ''b.webp''\<rparr>
      \<noteq> Some MSG_UNSUPPORTED_FORMAT"
  using validateFile_format_check
          [of "\<lparr>file_ref = 0, file_type = ''IMAGE/PNG'', file_size = 10, file_name = ''a.png''\<rparr>"]
        validateFile_format_check
          [of "\<lparr>file_ref = 1, file_type = ''image/webp'', file_size = 6000000, file_name = ''b.webp''\<rparr>"]
  by simp

subsection \<open>C3: the size check of validateFile\<close>

text \<open>
  C3. The limit is 5 * 1024 * 1024 = 5242880 bytes and the comparison is strict: a file
  of an accepted type is accepted when it has at most 5242880 bytes and rejected with
  the too-large message when it has 5242881 bytes or more.
\<close>

theorem validateFile_size_check:
  "file_type file \<in> {''image/png'', ''image/jpeg'', ''image/webp''} \<Longrightarrow>
     MAX_FILE_SIZE_BYTES = 5242880
     \<and> (file_size file \<le> 5242880 \<longrightarrow> validateFile file = None)
     \<and> (5242881 \<le> file_size file \<longrightarrow> validateFile file = Some MSG_FILE_TOO_LARGE)"
  by (auto simp add: validateFile_def ACCEPTED_MIME_TYPES_def MAX_FILE_SIZE_BYTES_def)

theorem validateFile_size_check_witness:
  "validateFile \<lparr>file_ref = 0, file_type = ''image/png'', file_size = 5242880, file_name = ''a.png''\<rparr>
      = None
   \<and> validateFile \<lparr>file_ref = 1, file_type = ''image/jpeg'', file_size = 5242881, file_name = ''b.jpg''\<rparr>
      = Some MSG_FILE_TOO_LARGE"
  using validateFile_size_check
          [of "\<lparr>file_ref = 0, file_type = ''image/png'', file_size = 5242880, file_name = ''a.png''\<rparr>"]
        validateFile_size_check
          [of "\<lparr>file_ref = 1, file_type = ''image/jpeg'', file_size = 5242881, file_name = ''b.jpg''\<rparr>"]
  by simp

subsection \<open>C4: link detection\<close>

text \<open>
  C4. For every URL parser and every decoded text, \<^verbatim>\<open>isHttpUrl\<close> holds exactly when the
  parser succeeds and the parsed scheme is \<^verbatim>\<open>http\<close> or \<^verbatim>\<open>https\<close>. In particular, with a
  parser that reads \<^verbatim>\<open>https://example.com/x\<close> as a URL of scheme \<^verbatim>\<open>https\<close>, rejects
  \<^verbatim>\<open>hello world\<close> and reads \<^verbatim>\<open>ftp://host/x\<close> as a URL of scheme \<^verbatim>\<open>ftp\<close>, as the browser's
  does, the first text is a link and the other two are not.
\<close>

theorem isHttpUrl_iff:
  "(isHttpUrl new_URL val \<longleftrightarrow>
      (\<exists>parsed. new_URL val = Inr parsed \<and> url_scheme parsed \<in> {''http'', ''https''}))
   \<and> (\<forall>parsed. new_URL ''https://example.com/x'' = Inr parsed \<and> url_scheme parsed = ''https''
         \<longrightarrow> isHttpUrl new_URL ''https://example.com/x'')
   \<and> (\<forall>exn. new_URL ''hello world'' = Inl exn \<longrightarrow> \<not> isHttpUrl new_URL ''hello world'')
   \<and> (\<forall>parsed. new_URL ''ftp://host/x'' = Inr parsed \<and> url_scheme parsed = ''ftp''
         \<longrightarrow> \<not> isHttpUrl new_URL ''ftp://host/x'')"
  by (auto simp add: isHttpUrl_def protocol_http protocol_https split: sum.splits)

theorem isHttpUrl_iff_witness:
  "isHttpUrl
     (\<lambda>v. if v = ''https://example.com/x'' then Inr \<lparr>url_scheme = ''https''\<rparr>
          else if v = ''ftp://host/x'' then Inr \<lparr>url_scheme = ''ftp''\<rparr>
          else Inl TypeError)
     ''https://example.com/x''
   \<and> \<not> isHttpUrl
     (\<lambda>v. if v = ''https://example.com/x'' then Inr \<lparr>url_scheme = ''https''\<rparr>
          else if v = ''ftp://host/x'' then Inr \<lparr>url_scheme = ''ftp''\<rparr>
          else Inl TypeError)
     ''hello world''
   \<and> \<not> isHttpUrl
     (\<lambda>v. if v = ''https://example.com/x'' then Inr \<lparr>url_scheme = ''https''\<rparr>
          else if v = ''ftp://host/x'' then Inr \<lparr>url_scheme = ''ftp''\<rparr>
          else Inl TypeError)
     ''ftp://host/x''"
  using isHttpUrl_iff
    [of "\<lambda>v. if v = ''https://example.com/x'' then Inr \<lparr>url_scheme = ''https''\<rparr>
             else if v = ''ftp://host/x'' then Inr \<lparr>url_scheme = ''ftp''\<rparr>
             else Inl TypeError" "''x''"]
  by simp

subsection \<open>C5: the failures of a paste\<close>

text \<open>
  C5 (as the code has it). While the component is mounted, a paste without items (no
  clipboard data, or an empty item list), a paste none of whose items has a type starting
  with \<^verbatim>\<open>image/\<close>, and a paste whose first image item yields no file each change
  nothing but the error message: the selected file, its preview and its decode outcome
  stay as they were, so no candidate becomes active. Each message is a non-empty string,
  hence rendered. The first two cases show the same message; the third shows a
  different one.
\<close>

theorem paste_failure_messages:
  assumes "mounted s"
  shows "(items = None \<or> items = Some [] \<longrightarrow>
            step jsQR s (Paste items) = s\<lparr>errorMessage := Some MSG_PASTE_NO_ITEMS\<rparr>)
    \<and> (items = Some its \<and> its \<noteq> []
         \<and> List.find (\<lambda>item. prefix ''image/'' (item_type item)) its = None \<longrightarrow>
            step jsQR s (Paste items) = s\<lparr>errorMessage := Some MSG_PASTE_NO_IMAGE_ITEM\<rparr>)
    \<and> (items = Some its
         \<and> List.find (\<lambda>item. prefix ''image/'' (item_type item)) its = Some imageItem
         \<and> getAsFile imageItem = None \<longrightarrow>
            step jsQR s (Paste items) = s\<lparr>errorMessage := Some MSG_PASTE_READ_FAILED\<rparr>)
    \<and> truthy (Some MSG_PASTE_NO_ITEMS) \<and> truthy (Some MSG_PASTE_NO_IMAGE_ITEM)
    \<and> truthy (Some MSG_PASTE_READ_FAILED)
    \<and> MSG_PASTE_NO_ITEMS = MSG_PASTE_NO_IMAGE_ITEM
    \<and> MSG_PASTE_READ_FAILED \<noteq> MSG_PASTE_NO_ITEMS"
proof (intro conjI impI)
  assume "items = None \<or> items = Some []"
  then have "handlePaste items s = s\<lparr>errorMessage := Some MSG_PASTE_NO_ITEMS\<rparr>"
    by (auto simp add: handlePaste_def)
  then show "step jsQR s (Paste items) = s\<lparr>errorMessage := Some MSG_PASTE_NO_ITEMS\<rparr>"
    using assms by (simp add: commit_unchanged)
next
  assume "items = Some its \<and> its \<noteq> []
    \<and> List.find (\<lambda>item. prefix ''image/'' (item_type item)) its = None"
  then have "handlePaste items s = s\<lparr>errorMessage := Some MSG_PASTE_NO_IMAGE_ITEM\<rparr>"
    by (cases its) (simp_all add: handlePaste_def)
  then show "step jsQR s (Paste items) = s\<lparr>errorMessage := Some MSG_PASTE_NO_IMAGE_ITEM\<rparr>"
    using assms by (simp add: commit_unchanged)
next
  assume "items = Some its
    \<and> List.find (\<lambda>item. prefix ''image/'' (item_type item)) its = Some imageItem
    \<and> getAsFile imageItem = None"
  then have "handlePaste items s = s\<lparr>errorMessage := Some MSG_PASTE_READ_FAILED\<rparr>"
    by (cases its) (simp_all add: handlePaste_def)
  then show "step jsQR s (Paste items) = s\<lparr>errorMessage := Some MSG_PASTE_READ_FAILED\<rparr>"
    using assms by (simp add: commit_unchanged)
qed (simp_all add: truthy_def MSG_paste)

theorem paste_failure_messages_witness:
  "step (\<lambda>px w h. None) init (Paste None) = init\<lparr>errorMessage := Some MSG_PASTE_NO_ITEMS\<rparr>
   \<and> step (\<lambda>px w h. None) init (Paste (Some [\<lparr>item_type = ''text/plain'', getAsFile = None\<rparr>]))
      = init\<lparr>errorMessage := Some MSG_PASTE_NO_IMAGE_ITEM\<rparr>
   \<and> step (\<lambda>px w h. None) init
        (Paste (Some [\<lparr>item_type = ''text/plain'', getAsFile = None\<rparr>,
                      \<lparr>item_type = ''image/png'', getAsFile = None\<rparr>]))
      = init\<lparr>errorMessage := Some MSG_PASTE_READ_FAILED\<rparr>"
  using paste_failure_messages
      [where s = init and jsQR = "\<lambda>px w h. None" and items = None and its = "[]"
         and imageItem = "\<lparr>item_type = ''image/png'', getAsFile = None\<rparr>"]
    paste_failure_messages
      [where s = init and jsQR = "\<lambda>px w h. None"
         and items = "Some [\<lparr>item_type = ''text/plain'', getAsFile = None\<rparr>]"
         and its = "[\<lparr>item_type = ''text/plain'', getAsFile = None\<rparr>]"
         and imageItem = "\<lparr>item_type = ''image/png'', getAsFile = None\<rparr>"]
    paste_failure_messages
      [where s = init and jsQR = "\<lambda>px w h. None"
         and items = "Some [\<lparr>item_type = ''text/plain'', getAsFile = None\<rparr>,
                            \<lparr>item_type = ''image/png'', getAsFile = None\<rparr>]"
         and its = "[\<lparr>item_type = ''text/plain'', getAsFile = None\<rparr>,
                     \<lparr>item_type = ''image/png'', getAsFile = None\<rparr>]"
         and imageItem = "\<lparr>item_type = ''image/png'', getAsFile = None\<rparr>"]
  by (simp add: init_def)

text \<open>
  The messages of the three cases are not pairwise different: a paste with an empty item
  list and a paste with a single text item leave the same error message.
\<close>

theorem paste_failure_messages_counterexample:
  "errorMessage (step (\<lambda>px w h. None) init (Paste (Some [])))
   = errorMessage (step (\<lambda>px w h. None) init
       (Paste (Some [\<lparr>item_type = ''text/plain'', getAsFile = None\<rparr>])))"
  by (simp add: run_defs MSG_paste)

subsection \<open>C6: a decode resolves to an outcome\<close>

text \<open>
  C6 (as the code has it). Let a decode be in flight and not cancelled in a reachable
  state; its outcome is Pending. If the image's error event fires, the outcome is
  LoadError. If its load event fires and no 2D context is available, the handler returns
  without an exception and the outcome is ContextError. If the load event fires with a
  context and the image has a positive natural width and height, the handler returns
  without an exception and the outcome is NotFound when the decoder finds no code and
  Success with the decoded text when it finds one. The load event never leads to
  LoadError, whatever the size of the image: there is no check of the natural size.
\<close>

theorem decode_resolves_to_outcome:
  assumes "s = run jsQR init evs" and "loading s url = Some False"
  shows "DecodeOutcome_of s = Some Pending
    \<and> DecodeOutcome_of (step jsQR s (ImageError url)) = Some LoadError
    \<and> (\<not> ctx \<longrightarrow>
          (\<exists>t'. image_onload jsQR url False img ctx t = Inr t')
          \<and> DecodeOutcome_of (step jsQR s (ImageLoad url img ctx)) = Some ContextError)
    \<and> (ctx \<and> 0 < naturalWidth img \<and> 0 < naturalHeight img \<longrightarrow>
          (\<exists>t'. image_onload jsQR url False img ctx t = Inr t')
          \<and> DecodeOutcome_of (step jsQR s (ImageLoad url img ctx)) =
              (case jsQR (pixels img) (naturalWidth img) (naturalHeight img) of
                 None \<Rightarrow> Some NotFound
               | Some text \<Rightarrow> Some (Success text)))
    \<and> DecodeOutcome_of (step jsQR s (ImageLoad url img ctx)) \<noteq> Some LoadError"
proof -
  have cs: "consistent s" unfolding assms(1) by (rule consistent_reachable)
  have p: "isDecoding s" "decodeResult s = None" "decodeError s = None"
    using consistentD(1) [OF cs assms(2)] by simp_all
  note le = step_ImageError_fields [OF assms(2), of jsQR]
  note ll = step_ImageLoad_fields [OF assms(2), of jsQR img ctx]
  have 1: "DecodeOutcome_of s = Some Pending" using p by (simp add: DecodeOutcome_of_def)
  have 2: "DecodeOutcome_of (step jsQR s (ImageError url)) = Some LoadError"
    unfolding DecodeOutcome_of_def le using p by (simp add: MSG_decode_distinct)
  have 3: "DecodeOutcome_of (step jsQR s (ImageLoad url img ctx)) = Some ContextError" if "\<not> ctx"
    unfolding DecodeOutcome_of_def ll using p that by (simp add: MSG_decode_distinct)
  have 4: "DecodeOutcome_of (step jsQR s (ImageLoad url img ctx)) =
              (case jsQR (pixels img) (naturalWidth img) (naturalHeight img) of
                 None \<Rightarrow> Some NotFound
               | Some text \<Rightarrow> Some (Success text))"
    if "ctx \<and> 0 < naturalWidth img \<and> 0 < naturalHeight img"
    unfolding DecodeOutcome_of_def ll using p that by (simp split: option.splits)
  have 5: "DecodeOutcome_of (step jsQR s (ImageLoad url img ctx)) \<noteq> Some LoadError"
    unfolding DecodeOutcome_of_def ll using p
    by (simp add: MSG_decode_distinct split: option.splits)
  show ?thesis
    using 1 2 3 4 5 image_onload_returns [of False ctx img jsQR url t] by blast
qed

theorem decode_resolves_to_outcome_witness:
  "loading (run (\<lambda>px w h. if px = [] then None else Some ''hello'') init
       [FileChange [\<lparr>file_ref = 0, file_type = ''image/png'', file_size = 10, file_name = ''a.png''\<rparr>]]) 1
     = Some False
   \<and> DecodeOutcome_of (step (\<lambda>px w h. if px = [] then None else Some ''hello'')
        (run (\<lambda>px w h. if px = [] then None else Some ''hello'') init
          [FileChange [\<lparr>file_ref = 0, file_type = ''image/png'', file_size = 10, file_name = ''a.png''\<rparr>]])
        (ImageLoad 1 \<lparr>naturalWidth = 3, naturalHeight = 2, pixels = [7]\<rparr> True))
     = Some (Success ''hello'')
   \<and> DecodeOutcome_of (step (\<lambda>px w h. if px = [] then None else Some ''hello'')
        (run (\<lambda>px w h. if px = [] then None else Some ''hello'') init
          [FileChange [\<lparr>file_ref = 0, file_type = ''image/png'', file_size = 10, file_name = ''a.png''\<rparr>]])
        (ImageError 1))
     = Some LoadError"
  using decode_resolves_to_outcome
    [where jsQR = "\<lambda>px w h. if px = [] then None else Some ''hello''"
       and evs = "[FileChange [\<lparr>file_ref = 0, file_type = ''image/png'', file_size = 10, file_name = ''a.png''\<rparr>]]"
       and s = "run (\<lambda>px w h. if px = [] then None else Some ''hello'') init
          [FileChange [\<lparr>file_ref = 0, file_type = ''image/png'', file_size = 10, file_name = ''a.png''\<rparr>]]"
       and url = 1 and ctx = True
       and img = "\<lparr>naturalWidth = 3, naturalHeight = 2, pixels = [7]\<rparr>"]
  by (simp add: run_defs)

text \<open>
  An image that loads with natural width and height zero, a context being available:
  \<^verbatim>\<open>getImageData\<close> throws inside \<^verbatim>\<open>image.onload\<close>, and the outcome stays Pending; it is
  not LoadError.
\<close>

theorem zero_size_image_counterexample:
  "loading (run (\<lambda>px w h. None) init
       [FileChange [\<lparr>file_ref = 0, file_type = ''image/png'', file_size = 10, file_name = ''a.png''\<rparr>]]) 1
     = Some False
   \<and> image_onload (\<lambda>px w h. None) 1 False \<lparr>naturalWidth = 0, naturalHeight = 0, pixels = []\<rparr> True
       (run (\<lambda>px w h. None) init
         [FileChange [\<lparr>file_ref = 0, file_type = ''image/png'', file_size = 10, file_name = ''a.png''\<rparr>]])
     = Inl IndexSizeError
   \<and> DecodeOutcome_of (run (\<lambda>px w h. None) init
       [FileChange [\<lparr>file_ref = 0, file_type = ''image/png'', file_size = 10, file_name = ''a.png''\<rparr>],
        ImageLoad 1 \<lparr>naturalWidth = 0, naturalHeight = 0, pixels = []\<rparr> True])
     = Some Pending
   \<and> DecodeOutcome_of (run (\<lambda>px w h. None) init
       [FileChange [\<lparr>file_ref = 0, file_type = ''image/png'', file_size = 10, file_name = ''a.png''\<rparr>],
        ImageLoad 1 \<lparr>naturalWidth = 0, naturalHeight = 0, pixels = []\<rparr> True])
     \<noteq> Some LoadError"
  by (simp add: run_defs DecodeOutcome_of_def)

subsection \<open>C7: the object URL of a decode on the exits of the pipeline\<close>

text \<open>
  C7. The object URL of a decode is not revoked on every exit of the pipeline. A PNG file
  is chosen; its decode creates the object URL 1. If the image loads with a positive
  size, or fails to load, the handler revokes URL 1. If the image loads with natural
  width and height zero while a 2D context is available, \<^verbatim>\<open>getImageData\<close> throws inside
  \<^verbatim>\<open>image.onload\<close>, which has no \<^verbatim>\<open>try\<close>: the pipeline has ended (the image's event has
  fired, nothing is loading any more), the decode is still pending, and URL 1 is still
  live.
\<close>

theorem decode_url_not_released_on_exception:
  "loading (run (\<lambda>px w h. None) init
       [FileChange [\<lparr>file_ref = 0, file_type = ''image/png'', file_size = 10, file_name = ''a.png''\<rparr>]]) 1
     = Some False
   \<and> 1 \<in> objectURLs (run (\<lambda>px w h. None) init
       [FileChange [\<lparr>file_ref = 0, file_type = ''image/png'', file_size = 10, file_name = ''a.png''\<rparr>]])
   \<and> 1 \<notin> objectURLs (run (\<lambda>px w h. None) init
       [FileChange [\<lparr>file_ref = 0, file_type = ''image/png'', file_size = 10, file_name = ''a.png''\<rparr>],
        ImageLoad 1 \<lparr>naturalWidth = 4, naturalHeight = 4, pixels = [0]\<rparr> True])
   \<and> 1 \<notin> objectURLs (run (\<lambda>px w h. None) init
       [FileChange [\<lparr>file_ref = 0, file_type = ''image/png'', file_size = 10, file_name = ''a.png''\<rparr>],
        ImageError 1])
   \<and> image_onload (\<lambda>px w h. None) 1 False \<lparr>naturalWidth = 0, naturalHeight = 0, pixels = []\<rparr> True
       (run (\<lambda>px w h. None) init
         [FileChange [\<lparr>file_ref = 0, file_type = ''image/png'', file_size = 10, file_name = ''a.png''\<rparr>]])
     = Inl IndexSizeError
   \<and> loading (run (\<lambda>px w h. None) init
       [FileChange [\<lparr>file_ref = 0, file_type = ''image/png'', file_size = 10, file_name = ''a.png''\<rparr>],
        ImageLoad 1 \<lparr>naturalWidth = 0, naturalHeight = 0, pixels = []\<rparr> True]) 1
     = None
   \<and> isDecoding (run (\<lambda>px w h. None) init
       [FileChange [\<lparr>file_ref = 0, file_type = ''image/png'', file_size = 10, file_name = ''a.png''\<rparr>],
        ImageLoad 1 \<lparr>naturalWidth = 0, naturalHeight = 0, pixels = []\<rparr> True])
   \<and> 1 \<in> objectURLs (run (\<lambda>px w h. None) init
       [FileChange [\<lparr>file_ref = 0, file_type = ''image/png'', file_size = 10, file_name = ''a.png''\<rparr>],
        ImageLoad 1 \<lparr>naturalWidth = 0, naturalHeight = 0, pixels = []\<rparr> True])"
  by (simp add: run_defs)

subsection \<open>C8: reset clears what is displayed\<close>

text \<open>
  C8. In every reachable state of the mounted component with a selected file (in
  particular after a successful decode), the reset button leaves no selected file, no
  preview URL, no decoded text, no decode error, no error message and no pending
  decode: the displayed cells are those of the initial state. The file input is emptied,
  no object URL stays live and no decode can write to the state later.
\<close>

theorem reset_clears_display:
  assumes "s = run jsQR init evs" and "mounted s" and "selectedFile s \<noteq> None"
  shows "selectedFile (step jsQR s Reset) = None \<and> imageUrl (step jsQR s Reset) = None
    \<and> decodeResult (step jsQR s Reset) = None \<and> decodeError (step jsQR s Reset) = None
    \<and> errorMessage (step jsQR s Reset) = None \<and> \<not> isDecoding (step jsQR s Reset)
    \<and> inputFiles (step jsQR s Reset) = []
    \<and> displayed (step jsQR s Reset) = displayed init
    \<and> objectURLs (step jsQR s Reset) = {}
    \<and> (\<forall>url. loading (step jsQR s Reset) url \<noteq> Some False)"
proof -
  have cs: "consistent s" unfolding assms(1) by (rule consistent_reachable)
  have st: "step jsQR s Reset = commit (selectedFile s) (handleReset s)"
    using assms(2,3) by simp
  have n: "selectedFile (handleReset s) = None" by (simp add: handleReset_frame)
  note f = commit_None [OF n assms(3)]
  have urls: "objectURLs (step jsQR s Reset) = {}"
    unfolding st f using consistentD(9) [OF cs] by (auto simp add: handleReset_frame)
  have ld: "loading (step jsQR s Reset) url \<noteq> Some False" for url
    unfolding st f using consistentD(1) [OF cs, of url]
    by (auto simp add: handleReset_frame)
  show ?thesis
    using urls ld unfolding st displayed_def by (simp add: f handleReset_frame init_def)
qed

theorem reset_clears_display_witness:
  "decodeResult (run (\<lambda>px w h. Some ''hello'') init
       [FileChange [\<lparr>file_ref = 0, file_type = ''image/png'', file_size = 10, file_name = ''a.png''\<rparr>],
        ImageLoad 1 \<lparr>naturalWidth = 4, naturalHeight = 4, pixels = [0]\<rparr> True])
     = Some ''hello''
   \<and> imageUrl (run (\<lambda>px w h. Some ''hello'') init
       [FileChange [\<lparr>file_ref = 0, file_type = ''image/png'', file_size = 10, file_name = ''a.png''\<rparr>],
        ImageLoad 1 \<lparr>naturalWidth = 4, naturalHeight = 4, pixels = [0]\<rparr> True])
     = Some 0
   \<and> displayed (step (\<lambda>px w h. Some ''hello'')
       (run (\<lambda>px w h. Some ''hello'') init
         [FileChange [\<lparr>file_ref = 0, file_type = ''image/png'', file_size = 10, file_name = ''a.png''\<rparr>],
          ImageLoad 1 \<lparr>naturalWidth = 4, naturalHeight = 4, pixels = [0]\<rparr> True])
       Reset)
     = (None, None, None, None, None, False)"
  using reset_clears_display
    [where jsQR = "\<lambda>px w h. Some ''hello''"
       and evs = "[FileChange [\<lparr>file_ref = 0, file_type = ''image/png'', file_size = 10, file_name = ''a.png''\<rparr>],
          ImageLoad 1 \<lparr>naturalWidth = 4, naturalHeight = 4, pixels = [0]\<rparr> True]"
       and s = "run (\<lambda>px w h. Some ''hello'') init
         [FileChange [\<lparr>file_ref = 0, file_type = ''image/png'', file_size = 10, file_name = ''a.png''\<rparr>],
          ImageLoad 1 \<lparr>naturalWidth = 4, naturalHeight = 4, pixels = [0]\<rparr> True]"]
  by (simp add: run_defs displayed_def)

subsection \<open>C9: at most one decode outcome at a time\<close>

text \<open>
  C9. In every reachable state, a pending decode has neither result nor error, and
  result and error are never both set; hence the render function shows at most one of
  the pending notice, the decoded text and the decode error. An event that changes the
  selected file to a new file starts a decode: pending is set, result and error are
  cleared. When a decode that is not cancelled completes, pending is cleared and exactly
  one of result and error is set: the error event sets the load-failure message, the
  load event (run to its end) sets the result or an error.
\<close>

theorem outcome_cells_exclusive:
  assumes "s = run jsQR init evs"
  shows "(isDecoding s \<longrightarrow> decodeResult s = None \<and> decodeError s = None)
    \<and> (decodeResult s = None \<or> decodeError s = None)
    \<and> \<not> (shows_pending s \<and> shows_decodeResult s)
    \<and> \<not> (shows_pending s \<and> shows_decodeError s)
    \<and> \<not> (shows_decodeResult s \<and> shows_decodeError s)
    \<and> (selectedFile (step jsQR s e) \<noteq> selectedFile s \<and> selectedFile (step jsQR s e) \<noteq> None \<longrightarrow>
          isDecoding (step jsQR s e) \<and> decodeResult (step jsQR s e) = None
          \<and> decodeError (step jsQR s e) = None)
    \<and> (loading s url = Some False \<longrightarrow>
          isDecoding s
          \<and> \<not> isDecoding (step jsQR s (ImageError url))
          \<and> decodeResult (step jsQR s (ImageError url)) = None
          \<and> decodeError (step jsQR s (ImageError url)) = Some MSG_IMAGE_LOAD_FAILED)
    \<and> (loading s url = Some False \<and> (\<not> ctx \<or> (0 < naturalWidth img \<and> 0 < naturalHeight img)) \<longrightarrow>
          \<not> isDecoding (step jsQR s (ImageLoad url img ctx))
          \<and> (decodeResult (step jsQR s (ImageLoad url img ctx)) = None)
              \<noteq> (decodeError (step jsQR s (ImageLoad url img ctx)) = None))"
proof -
  have cs: "consistent s" unfolding assms by (rule consistent_reachable)
  note d = consistentD [OF cs]
  have 1: "isDecoding s \<longrightarrow> decodeResult s = None \<and> decodeError s = None" using d(5) by simp
  have 2: "decodeResult s = None \<or> decodeError s = None" by (rule d(6))
  have 3: "\<not> (shows_pending s \<and> shows_decodeResult s)" "\<not> (shows_pending s \<and> shows_decodeError s)"
    by (simp_all add: shows_pending_def shows_decodeResult_def shows_decodeError_def)
  have 4: "\<not> (shows_decodeResult s \<and> shows_decodeError s)"
    using 2 by (auto simp add: shows_decodeResult_def shows_decodeError_def truthy_def)
  have 5: "selectedFile (step jsQR s e) \<noteq> selectedFile s \<and> selectedFile (step jsQR s e) \<noteq> None \<longrightarrow>
          isDecoding (step jsQR s e) \<and> decodeResult (step jsQR s e) = None
          \<and> decodeError (step jsQR s e) = None"
  proof (intro impI, elim conjE)
    assume ch: "selectedFile (step jsQR s e) \<noteq> selectedFile s"
      and "selectedFile (step jsQR s e) \<noteq> None"
    then obtain f where "selectedFile (step jsQR s e) = Some f" by auto
    from started_step [OF ch this]
    show "isDecoding (step jsQR s e) \<and> decodeResult (step jsQR s e) = None
          \<and> decodeError (step jsQR s e) = None" by simp
  qed
  have 6: "loading s url = Some False \<longrightarrow>
          isDecoding s
          \<and> \<not> isDecoding (step jsQR s (ImageError url))
          \<and> decodeResult (step jsQR s (ImageError url)) = None
          \<and> decodeError (step jsQR s (ImageError url)) = Some MSG_IMAGE_LOAD_FAILED"
  proof
    assume l: "loading s url = Some False"
    show "isDecoding s
          \<and> \<not> isDecoding (step jsQR s (ImageError url))
          \<and> decodeResult (step jsQR s (ImageError url)) = None
          \<and> decodeError (step jsQR s (ImageError url)) = Some MSG_IMAGE_LOAD_FAILED"
      using d(1) [OF l] by (simp add: step_ImageError_fields [OF l] del: step.simps)
  qed
  have 7: "loading s url = Some False \<and> (\<not> ctx \<or> (0 < naturalWidth img \<and> 0 < naturalHeight img)) \<longrightarrow>
          \<not> isDecoding (step jsQR s (ImageLoad url img ctx))
          \<and> (decodeResult (step jsQR s (ImageLoad url img ctx)) = None)
              \<noteq> (decodeError (step jsQR s (ImageLoad url img ctx)) = None)"
  proof (intro impI, elim conjE)
    assume l: "loading s url = Some False"
      and r: "\<not> ctx \<or> (0 < naturalWidth img \<and> 0 < naturalHeight img)"
    show "\<not> isDecoding (step jsQR s (ImageLoad url img ctx))
          \<and> (decodeResult (step jsQR s (ImageLoad url img ctx)) = None)
              \<noteq> (decodeError (step jsQR s (ImageLoad url img ctx)) = None)"
      using d(1) [OF l] r
      by (auto simp add: step_ImageLoad_fields [OF l] simp del: step.simps split: option.splits)
  qed
  show ?thesis by (intro conjI 1 2 3 4 5 6 7)
qed

theorem outcome_cells_exclusive_witness:
  "loading (run (\<lambda>px w h. if px = [] then None else Some ''hello'') init
       [FileChange [\<lparr>file_ref = 0, file_type = ''image/png'', file_size = 10, file_name = ''a.png''\<rparr>]]) 1
     = Some False
   \<and> isDecoding (run (\<lambda>px w h. if px = [] then None else Some ''hello'') init
       [FileChange [\<lparr>file_ref = 0, file_type = ''image/png'', file_size = 10, file_name = ''a.png''\<rparr>]])
   \<and> displayed (step (\<lambda>px w h. if px = [] then None else Some ''hello'')
        (run (\<lambda>px w h. if px = [] then None else Some ''hello'') init
          [FileChange [\<lparr>file_ref = 0, file_type = ''image/png'', file_size = 10, file_name = ''a.png''\<rparr>]])
        (ImageLoad 1 \<lparr>naturalWidth = 3, naturalHeight = 2, pixels = []\<rparr> True))
     = (Some \<lparr>file_ref = 0, file_type = ''image/png'', file_size = 10, file_name = ''a.png''\<rparr>,
        Some 0, None, None, Some MSG_CODE_NOT_FOUND, False)
   \<and> isDecoding (step (\<lambda>px w h. if px = [] then None else Some ''hello'')
        (run (\<lambda>px w h. if px = [] then None else Some ''hello'') init
          [FileChange [\<lparr>file_ref = 0, file_type = ''image/png'', file_size = 10, file_name = ''a.png''\<rparr>]])
        (Paste (Some [\<lparr>item_type = ''image/jpeg'',
           getAsFile = Some \<lparr>file_ref = 1, file_type = ''image/jpeg'', file_size = 20, file_name = []\<rparr>\<rparr>])))"
  using outcome_cells_exclusive
    [where jsQR = "\<lambda>px w h. if px = [] then None else Some ''hello''"
       and evs = "[FileChange [\<lparr>file_ref = 0, file_type = ''image/png'', file_size = 10, file_name = ''a.png''\<rparr>]]"
       and s = "run (\<lambda>px w h. if px = [] then None else Some ''hello'') init
          [FileChange [\<lparr>file_ref = 0, file_type = ''image/png'', file_size = 10, file_name = ''a.png''\<rparr>]]"
       and url = 1 and ctx = True
       and img = "\<lparr>naturalWidth = 3, naturalHeight = 2, pixels = []\<rparr>"
       and e = "Paste (Some [\<lparr>item_type = ''image/jpeg'',
           getAsFile = Some \<lparr>file_ref = 1, file_type = ''image/jpeg'', file_size = 20, file_name = []\<rparr>\<rparr>])"]
  by (simp add: run_defs displayed_def)

subsection \<open>C10: a validation failure at the file input and at a paste\<close>

text \<open>
  C10. Let the component be mounted and let a file fail validation with message \<open>err\<close>.
  Chosen through the file input, it clears the selection, empties the file input and
  shows \<open>err\<close>. Pasted (as the first image item of the clipboard), it changes nothing but
  the error message: the selected file, its preview and its decode result stay.
\<close>

theorem validation_failure_at_the_two_inputs:
  assumes "mounted s" and "validateFile picked = Some err"
  shows "selectedFile (step jsQR s (FileChange (picked # rest))) = None
    \<and> inputFiles (step jsQR s (FileChange (picked # rest))) = []
    \<and> errorMessage (step jsQR s (FileChange (picked # rest))) = Some err
    \<and> (List.find (\<lambda>item. prefix ''image/'' (item_type item)) its = Some imageItem
         \<and> getAsFile imageItem = Some picked \<longrightarrow>
           step jsQR s (Paste (Some its)) = s\<lparr>errorMessage := Some err\<rparr>)"
proof -
  let ?h = "handleFileChange (s\<lparr>inputFiles := picked # rest\<rparr>)"
  have t: "truthy (validateFile picked)" using assms(2) by (rule validateFile_truthy)
  have h: "?h = s\<lparr>inputFiles := [], errorMessage := Some err, selectedFile := None\<rparr>"
    using t assms(2) by (simp add: handleFileChange_def)
  have st: "step jsQR s (FileChange (picked # rest)) = commit (selectedFile s) ?h"
    using assms(1) by simp
  have fc: "selectedFile (commit (selectedFile s) ?h) = None
    \<and> inputFiles (commit (selectedFile s) ?h) = []
    \<and> errorMessage (commit (selectedFile s) ?h) = Some err"
  proof (cases "selectedFile s")
    case None
    then have "commit (selectedFile s) ?h = ?h" unfolding h by (simp add: commit_same)
    then show ?thesis unfolding h by simp
  next
    case (Some f)
    have n: "selectedFile ?h = None" unfolding h by simp
    have p: "selectedFile s \<noteq> None" using Some by simp
    show ?thesis by (simp add: commit_None [OF n p]) (simp add: h)
  qed
  have ps: "step jsQR s (Paste (Some its)) = s\<lparr>errorMessage := Some err\<rparr>"
    if "List.find (\<lambda>item. prefix ''image/'' (item_type item)) its = Some imageItem"
      and "getAsFile imageItem = Some picked"
  proof -
    have "handlePaste (Some its) s = s\<lparr>errorMessage := Some err\<rparr>"
      using that t assms(2) by (cases its) (simp_all add: handlePaste_def)
    then show ?thesis using assms(1) by (simp add: commit_unchanged)
  qed
  show ?thesis using fc ps unfolding st by blast
qed

theorem validation_failure_at_the_two_inputs_witness:
  "displayed (run (\<lambda>px w h. Some ''hello'') init
       [FileChange [\<lparr>file_ref = 0, file_type = ''image/png'', file_size = 10, file_name = ''a.png''\<rparr>],
        ImageLoad 1 \<lparr>naturalWidth = 4, naturalHeight = 4, pixels = [0]\<rparr> True,
        FileChange [\<lparr>file_ref = 1, file_type = ''image/gif'', file_size = 10, file_name = ''b.gif''\<rparr>]])
     = (None, None, Some MSG_UNSUPPORTED_FORMAT, None, None, False)
   \<and> displayed (run (\<lambda>px w h. Some ''hello'') init
       [FileChange [\<lparr>file_ref = 0, file_type = ''image/png'', file_size = 10, file_name = ''a.png''\<rparr>],
        ImageLoad 1 \<lparr>naturalWidth = 4, naturalHeight = 4, pixels = [0]\<rparr> True,
        Paste (Some [\<lparr>item_type = ''image/gif'',
          getAsFile = Some \<lparr>file_ref = 1, file_type = ''image/gif'', file_size = 10, file_name = ''b.gif''\<rparr>\<rparr>])])
     = (Some \<lparr>file_ref = 0, file_type = ''image/png'', file_size = 10, file_name = ''a.png''\<rparr>,
        Some 0, Some MSG_UNSUPPORTED_FORMAT, Some ''hello'', None, False)"
  using validation_failure_at_the_two_inputs
    [where jsQR = "\<lambda>px w h. Some ''hello''"
       and s = "run (\<lambda>px w h. Some ''hello'') init
         [FileChange [\<lparr>file_ref = 0, file_type = ''image/png'', file_size = 10, file_name = ''a.png''\<rparr>],
          ImageLoad 1 \<lparr>naturalWidth = 4, naturalHeight = 4, pixels = [0]\<rparr> True]"
       and picked = "\<lparr>file_ref = 1, file_type = ''image/gif'', file_size = 10, file_name = ''b.gif''\<rparr>"
       and err = MSG_UNSUPPORTED_FORMAT and rest = "[]"
       and its = "[\<lparr>item_type = ''image/gif'',
          getAsFile = Some \<lparr>file_ref = 1, file_type = ''image/gif'', file_size = 10, file_name = ''b.gif''\<rparr>\<rparr>]"
       and imageItem = "\<lparr>item_type = ''image/gif'',
          getAsFile = Some \<lparr>file_ref = 1, file_type = ''image/gif'', file_size = 10, file_name = ''b.gif''\<rparr>\<rparr>"]
  by (simp add: run_defs displayed_def MSG_validation_nonempty)

end
